theory Spec2Isabelle
  imports Main "HOL-Library.Word" "HOL-Library.AList"
begin

section \<open>JavaScript strings\<close>

text \<open>
  A JavaScript string is a sequence of 16-bit code units. Every string of the program
  (fragments of the response, messages, keys of an object) is a list of such units.
  \<open>js\<close> writes an ASCII literal as such a string.
\<close>

type_synonym code_unit = "16 word"
type_synonym jsstring = "code_unit list"

definition ch :: "char \<Rightarrow> code_unit" where
  "ch c = of_char c"

definition js :: "string \<Rightarrow> jsstring" where
  "js s = map ch s"

section \<open>JSON values and \<open>JSON.parse\<close>\<close>

text \<open>
  \<open>submitAnalysis\<close> calls the built-in \<open>JSON.parse\<close> on the accumulated response.
  The built-in is part of the language, not of the repository; it is modelled here after
  the JSON grammar it implements (ECMA-404, as ECMA-262 prescribes for \<open>JSON.parse\<close>):
  white space is space, tab, line feed and carriage return; a value is an object, an
  array, a string, a number or one of \<open>true\<close>, \<open>false\<close>, \<open>null\<close>; the whole text
  is one value between optional white space. The result \<open>None\<close> stands for the
  \<open>SyntaxError\<close> the built-in throws.

  A number is kept as its literal (the built-in yields the double nearest to the decimal
  the literal denotes; the program never computes with it). A string is decoded: the
  escapes are replaced by the code units they denote. An object is the list of its
  properties; a key that occurs twice keeps its first position and its last value.
\<close>

datatype jsval =
    JNull
  | JBool bool
  | JNum jsstring
  | JStr jsstring
  | JArr "jsval list"
  | JObj "(jsstring \<times> jsval) list"

datatype token =
    LBrace | RBrace | LBracket | RBracket | Colon | Comma
  | TString jsstring | TNumber jsstring | TTrue | TFalse | TNull

definition is_ws :: "code_unit \<Rightarrow> bool" where
  "is_ws c = (c = 0x20 \<or> c = 0x09 \<or> c = 0x0A \<or> c = 0x0D)"

definition is_digit :: "code_unit \<Rightarrow> bool" where
  "is_digit c = (ch CHR ''0'' \<le> c \<and> c \<le> ch CHR ''9'')"

definition hex_digit :: "code_unit \<Rightarrow> nat option" where
  "hex_digit c =
     (if ch CHR ''0'' \<le> c \<and> c \<le> ch CHR ''9'' then Some (unat c - 48)
      else if ch CHR ''a'' \<le> c \<and> c \<le> ch CHR ''f'' then Some (unat c - 87)
      else if ch CHR ''A'' \<le> c \<and> c \<le> ch CHR ''F'' then Some (unat c - 55)
      else None)"

definition hex4 :: "code_unit \<Rightarrow> code_unit \<Rightarrow> code_unit \<Rightarrow> code_unit \<Rightarrow> code_unit option" where
  "hex4 a b c d =
     (case (hex_digit a, hex_digit b, hex_digit c, hex_digit d) of
        (Some x, Some y, Some z, Some w) \<Rightarrow> Some (of_nat (((x * 16 + y) * 16 + z) * 16 + w))
      | _ \<Rightarrow> None)"

text \<open>
  The character after a backslash (code unit \<open>0x5C\<close>), other than \<open>u\<close>: the quotation
  mark (\<open>0x22\<close>), the backslash, the solidus, and \<open>b f n r t\<close>.
\<close>

definition escape :: "code_unit \<Rightarrow> code_unit option" where
  "escape e =
     (if e = 0x22 then Some 0x22
      else if e = 0x5C then Some 0x5C
      else if e = ch CHR ''/'' then Some (ch CHR ''/'')
      else if e = ch CHR ''b'' then Some 0x08
      else if e = ch CHR ''f'' then Some 0x0C
      else if e = ch CHR ''n'' then Some 0x0A
      else if e = ch CHR ''r'' then Some 0x0D
      else if e = ch CHR ''t'' then Some 0x09
      else None)"

definition prepend :: "code_unit \<Rightarrow> (jsstring \<times> jsstring) option \<Rightarrow> (jsstring \<times> jsstring) option" where
  "prepend u r = (case r of None \<Rightarrow> None | Some (s, rest) \<Rightarrow> Some (u # s, rest))"

text \<open>
  \<open>lex_string\<close> reads a string literal from just after its opening quotation mark: the
  decoded string and the text after the closing mark. A control character (below
  \<open>0x20\<close>) may not stand unescaped.
\<close>

fun lex_string :: "jsstring \<Rightarrow> (jsstring \<times> jsstring) option" where
  "lex_string [] = None"
| "lex_string (c # cs) =
     (if c = 0x22 then Some ([], cs)
      else if c = 0x5C then
        (case cs of
           [] \<Rightarrow> None
         | e # es \<Rightarrow>
             if e = ch CHR ''u'' then
               (case es of
                  h1 # h2 # h3 # h4 # rest \<Rightarrow>
                    (case hex4 h1 h2 h3 h4 of
                       None \<Rightarrow> None
                     | Some u \<Rightarrow> prepend u (lex_string rest))
                | _ \<Rightarrow> None)
             else
               (case escape e of
                  None \<Rightarrow> None
                | Some u \<Rightarrow> prepend u (lex_string es)))
      else if c < 0x20 then None
      else prepend c (lex_string cs))"

text \<open>
  A number literal: an optional minus, an integer part (\<open>0\<close>, or a digit from \<open>1\<close> to
  \<open>9\<close> followed by digits), an optional fraction (a point and at least one digit) and
  an optional exponent (\<open>e\<close> or \<open>E\<close>, an optional sign, at least one digit).
\<close>

definition lex_int :: "jsstring \<Rightarrow> (jsstring \<times> jsstring) option" where
  "lex_int cs =
     (case cs of
        [] \<Rightarrow> None
      | d # r \<Rightarrow>
          if d = ch CHR ''0'' then Some ([d], r)
          else if is_digit d then Some (d # takeWhile is_digit r, dropWhile is_digit r)
          else None)"

definition lex_digits :: "jsstring \<Rightarrow> (jsstring \<times> jsstring) option" where
  "lex_digits cs =
     (if takeWhile is_digit cs = [] then None
      else Some (takeWhile is_digit cs, dropWhile is_digit cs))"

definition lex_frac :: "jsstring \<Rightarrow> (jsstring \<times> jsstring) option" where
  "lex_frac cs =
     (case cs of
        [] \<Rightarrow> Some ([], [])
      | p # r \<Rightarrow>
          if p = ch CHR ''.'' then
            (case lex_digits r of None \<Rightarrow> None | Some (ds, rest) \<Rightarrow> Some (p # ds, rest))
          else Some ([], cs))"

definition lex_exp :: "jsstring \<Rightarrow> (jsstring \<times> jsstring) option" where
  "lex_exp cs =
     (case cs of
        [] \<Rightarrow> Some ([], [])
      | e # r \<Rightarrow>
          if e = ch CHR ''e'' \<or> e = ch CHR ''E'' then
            (case r of
               [] \<Rightarrow> None
             | g # r' \<Rightarrow>
                 if g = ch CHR ''+'' \<or> g = ch CHR ''-'' then
                   (case lex_digits r' of
                      None \<Rightarrow> None
                    | Some (ds, rest) \<Rightarrow> Some (e # g # ds, rest))
                 else
                   (case lex_digits r of
                      None \<Rightarrow> None
                    | Some (ds, rest) \<Rightarrow> Some (e # ds, rest)))
          else Some ([], cs))"

definition lex_number :: "jsstring \<Rightarrow> (jsstring \<times> jsstring) option" where
  "lex_number cs =
     (let (sign, r0) = (case cs of
                          [] \<Rightarrow> ([], [])
                        | c # r \<Rightarrow> if c = ch CHR ''-'' then ([c], r) else ([], cs))
      in case lex_int r0 of
           None \<Rightarrow> None
         | Some (i, r1) \<Rightarrow>
             (case lex_frac r1 of
                None \<Rightarrow> None
              | Some (f, r2) \<Rightarrow>
                  (case lex_exp r2 of
                     None \<Rightarrow> None
                   | Some (e, r3) \<Rightarrow> Some (sign @ i @ f @ e, r3))))"

text \<open>Each literal read leaves a strictly shorter text: the tokenizer terminates.\<close>

lemma prepend_Some: "prepend u r = Some (s, rest) \<Longrightarrow> \<exists>s'. r = Some (s', rest)"
  by (auto simp: prepend_def split: option.splits)

lemma lex_string_rest: "lex_string cs = Some (s, rest) \<Longrightarrow> length rest < length cs"
proof (induction cs arbitrary: s rest rule: lex_string.induct)
  case 1
  then show ?case by simp
next
  case (2 c cs)
  show ?case
  proof (cases "c = 0x22")
    case True
    with "2.prems" show ?thesis by simp
  next
    case notq: False
    show ?thesis
    proof (cases "c = 0x5C")
      case False
      with notq "2.prems" have lt: "\<not> c < 0x20"
        and "prepend c (lex_string cs) = Some (s, rest)"
        by (auto split: if_splits)
      then obtain s' where "lex_string cs = Some (s', rest)"
        using prepend_Some by blast
      with "2.IH"(3) notq False lt show ?thesis by fastforce
    next
      case bs: True
      show ?thesis
      proof (cases cs)
        case Nil
        with notq bs "2.prems" show ?thesis by simp
      next
        case (Cons e es)
        show ?thesis
        proof (cases "e = ch CHR ''u''")
          case True
          with notq bs Cons "2.prems" obtain h1 h2 h3 h4 r u where
            es: "es = h1 # h2 # h3 # h4 # r" and h: "hex4 h1 h2 h3 h4 = Some u"
            and p: "prepend u (lex_string r) = Some (s, rest)"
            by (auto split: list.splits option.splits)
          from p obtain s' where "lex_string r = Some (s', rest)"
            using prepend_Some by blast
          with "2.IH"(1) notq bs Cons True es h have "length rest < length r" by blast
          with Cons es show ?thesis by simp
        next
          case False
          with notq bs Cons "2.prems" obtain u where
            h: "escape e = Some u" and p: "prepend u (lex_string es) = Some (s, rest)"
            by (auto split: option.splits)
          from p obtain s' where "lex_string es = Some (s', rest)"
            using prepend_Some by blast
          with "2.IH"(2) notq bs Cons False h have "length rest < length es" by blast
          with Cons show ?thesis by simp
        qed
      qed
    qed
  qed
qed

lemma lex_digits_rest: "lex_digits cs = Some (ds, rest) \<Longrightarrow> length rest \<le> length cs"
  by (auto simp: lex_digits_def length_dropWhile_le split: if_splits)

lemma lex_int_rest: "lex_int cs = Some (i, rest) \<Longrightarrow> length rest < length cs"
  by (auto simp: lex_int_def less_Suc_eq_le length_dropWhile_le split: list.splits if_splits)

lemma lex_frac_rest: "lex_frac cs = Some (f, rest) \<Longrightarrow> length rest \<le> length cs"
  by (auto simp: lex_frac_def split: list.splits if_splits option.splits
      dest!: lex_digits_rest)

lemma lex_exp_rest: "lex_exp cs = Some (e, rest) \<Longrightarrow> length rest \<le> length cs"
  by (auto simp: lex_exp_def split: list.splits if_splits option.splits
      dest!: lex_digits_rest)

lemma lex_number_rest: "lex_number cs = Some (n, rest) \<Longrightarrow> length rest < length cs"
  by (auto simp: lex_number_def Let_def split: list.splits if_splits option.splits prod.splits
      dest!: lex_int_rest lex_frac_rest lex_exp_rest)

definition cons_token :: "token \<Rightarrow> token list option \<Rightarrow> token list option" where
  "cons_token t r = (case r of None \<Rightarrow> None | Some ts \<Rightarrow> Some (t # ts))"

function tokenize :: "jsstring \<Rightarrow> token list option" where
  "tokenize [] = Some []"
| "tokenize (c # cs) =
     (if is_ws c then tokenize cs
      else if c = ch CHR ''{'' then cons_token LBrace (tokenize cs)
      else if c = ch CHR ''}'' then cons_token RBrace (tokenize cs)
      else if c = ch CHR ''['' then cons_token LBracket (tokenize cs)
      else if c = ch CHR '']'' then cons_token RBracket (tokenize cs)
      else if c = ch CHR '':'' then cons_token Colon (tokenize cs)
      else if c = ch CHR '','' then cons_token Comma (tokenize cs)
      else if c = 0x22 then
        (case lex_string cs of
           None \<Rightarrow> None
         | Some (s, rest) \<Rightarrow> cons_token (TString s) (tokenize rest))
      else if c = ch CHR ''-'' \<or> is_digit c then
        (case lex_number (c # cs) of
           None \<Rightarrow> None
         | Some (n, rest) \<Rightarrow> cons_token (TNumber n) (tokenize rest))
      else if take 4 (c # cs) = js ''true'' then cons_token TTrue (tokenize (drop 3 cs))
      else if take 5 (c # cs) = js ''false'' then cons_token TFalse (tokenize (drop 4 cs))
      else if take 4 (c # cs) = js ''null'' then cons_token TNull (tokenize (drop 3 cs))
      else None)"
  by pat_completeness auto
termination
proof (relation "measure length")
  fix c cs x2 x y
  assume "lex_string cs = Some x2" "(x, y) = x2"
  then show "(y, c # cs) \<in> measure length"
    using lex_string_rest [of cs x y] by simp
next
  fix c cs x2 x y
  assume "lex_number (c # cs) = Some x2" "(x, y) = x2"
  then show "(y, c # cs) \<in> measure length"
    using lex_number_rest [of "c # cs" x y] by simp
qed simp_all

text \<open>
  Defining a property of an object under construction: \<open>JSON.parse\<close> keeps one value
  per key, the last one read.
\<close>

definition define_property ::
  "jsstring \<Rightarrow> jsval \<Rightarrow> (jsstring \<times> jsval) list \<Rightarrow> (jsstring \<times> jsval) list" where
  "define_property k v ps = AList.update k v ps"

text \<open>
  The parser reads the tokens from left to right and keeps the containers it is inside
  of on a stack: an array with the elements read so far, or an object with the
  properties read so far and the key whose value is being read. \<open>parse_value\<close> expects
  a value; \<open>parse_after v\<close> continues after the value \<open>v\<close> is complete. Every call
  consumes a token.
\<close>

datatype frame =
    InArray "jsval list"
  | InObject "(jsstring \<times> jsval) list" jsstring

fun parse_value :: "token list \<Rightarrow> frame list \<Rightarrow> jsval option"
  and parse_after :: "jsval \<Rightarrow> token list \<Rightarrow> frame list \<Rightarrow> jsval option" where
  "parse_value [] st = None"
| "parse_value (t # ts) st =
     (case t of
        TString s \<Rightarrow> parse_after (JStr s) ts st
      | TNumber n \<Rightarrow> parse_after (JNum n) ts st
      | TTrue \<Rightarrow> parse_after (JBool True) ts st
      | TFalse \<Rightarrow> parse_after (JBool False) ts st
      | TNull \<Rightarrow> parse_after JNull ts st
      | LBracket \<Rightarrow>
          (case ts of
             RBracket # ts' \<Rightarrow> parse_after (JArr []) ts' st
           | _ \<Rightarrow> parse_value ts (InArray [] # st))
      | LBrace \<Rightarrow>
          (case ts of
             RBrace # ts' \<Rightarrow> parse_after (JObj []) ts' st
           | TString k # Colon # ts' \<Rightarrow> parse_value ts' (InObject [] k # st)
           | _ \<Rightarrow> None)
      | _ \<Rightarrow> None)"
| "parse_after v [] st = (case st of [] \<Rightarrow> Some v | _ \<Rightarrow> None)"
| "parse_after v (t # ts) st =
     (case st of
        [] \<Rightarrow> None
      | InArray xs # st' \<Rightarrow>
          (case t of
             Comma \<Rightarrow> parse_value ts (InArray (xs @ [v]) # st')
           | RBracket \<Rightarrow> parse_after (JArr (xs @ [v])) ts st'
           | _ \<Rightarrow> None)
      | InObject ps k0 # st' \<Rightarrow>
          (case t of
             Comma \<Rightarrow>
               (case ts of
                  TString k # Colon # ts' \<Rightarrow>
                    parse_value ts' (InObject (define_property k0 v ps) k # st')
                | _ \<Rightarrow> None)
           | RBrace \<Rightarrow> parse_after (JObj (define_property k0 v ps)) ts st'
           | _ \<Rightarrow> None))"

definition JSON_parse :: "jsstring \<Rightarrow> jsval option" where
  "JSON_parse source = (case tokenize source of None \<Rightarrow> None | Some ts \<Rightarrow> parse_value ts [])"

lemmas js_simps = js_def ch_def is_ws_def is_digit_def hex_digit_def hex4_def escape_def
  prepend_def lex_int_def lex_digits_def lex_frac_def lex_exp_def lex_number_def
  cons_token_def define_property_def JSON_parse_def

section \<open>The data model (\<open>types.ts\<close>)\<close>

text \<open>
  A \<open>number\<close> is an IEEE 754 double, kept by its 64 bits: the program stores and copies
  coordinates and never computes with them.
\<close>

type_synonym float64 = "64 word"

record GeoLocation =
  latitude :: float64
  longitude :: float64

record EnvironmentalData =
  sunlight :: jsstring
  watering :: jsstring
  user_notes :: jsstring
  organicPreference :: bool
  location :: "GeoLocation option"

text \<open>
  \<open>PredictionData\<close> is an interface: the compiler checks it and nothing of it exists
  when the program runs. \<open>JSON.parse(fullResponse) as PredictionData\<close> asserts the type
  of whatever value the parser returns, so a value of that type is any \<open>jsval\<close>.
  The names of the interface's twelve fields are kept, to speak of them.
\<close>

definition PredictionData_fields :: "jsstring list" where
  "PredictionData_fields =
     [js ''plantName'', js ''isHealthy'', js ''diseaseName'', js ''description'',
      js ''treatmentSuggestions'', js ''benefits'', js ''confidenceScore'',
      js ''preventativeCareTips'', js ''progressAssessment'', js ''comparativeAnalysis'',
      js ''pestIdentification'', js ''nutrientDeficiencies'']"


text \<open>
  The object spread \<open>...parsedData\<close> copies the own enumerable properties of the value:
  the properties of an object, the elements of an array and the characters of a string
  under their indices (written in decimal), and nothing of a number, a boolean or
  \<open>null\<close>.
\<close>

fun decimal :: "nat \<Rightarrow> jsstring" where
  "decimal n =
     (if n < 10 then [ch CHR ''0'' + of_nat n]
      else decimal (n div 10) @ [ch CHR ''0'' + of_nat (n mod 10)])"

definition spread :: "jsval \<Rightarrow> (jsstring \<times> jsval) list" where
  "spread v =
     (case v of
        JObj ps \<Rightarrow> ps
      | JArr xs \<Rightarrow> zip (map decimal [0..<length xs]) xs
      | JStr s \<Rightarrow> zip (map decimal [0..<length s]) (map (\<lambda>c. JStr [c]) s)
      | _ \<Rightarrow> [])"

definition own_property :: "jsval \<Rightarrow> jsstring \<Rightarrow> jsval option" where
  "own_property v k = map_of (spread v) k"

text \<open>
  \<open>AnalysisRecord extends PredictionData\<close> with \<open>id\<close>, \<open>date\<close>, \<open>imageUrl\<close> and
  \<open>environmentalData\<close>. The record is built by
  \<open>{ ...parsedData, id: ..., date: ..., imageUrl: ..., environmentalData }\<close>:
  the four properties written after the spread replace any of the same name that came
  from \<open>parsedData\<close>. \<open>predictionData\<close> holds the properties the spread copied and that
  are not replaced.
\<close>

definition stamped_fields :: "jsstring list" where
  "stamped_fields = [js ''id'', js ''date'', js ''imageUrl'', js ''environmentalData'']"

record AnalysisRecord =
  predictionData :: "(jsstring \<times> jsval) list"
  rec_id :: jsstring
  rec_date :: jsstring
  rec_imageUrl :: jsstring
  rec_environmentalData :: EnvironmentalData

record PlantProfile =
  plant_id :: jsstring
  plant_name :: jsstring
  analysisHistory :: "AnalysisRecord list"

section \<open>The world outside \<open>App\<close>\<close>

text \<open>
  A \<open>File\<close> is a name and bytes. A value that is thrown is, as far as the handlers
  look at it, a \<open>SyntaxError\<close> with its message, another \<open>Error\<close> with its message, or
  a value that is not an \<open>Error\<close>.
\<close>

datatype File = File (file_name: jsstring) (file_bytes: "8 word list")

datatype View = PROFILER | ANALYSIS | RESULT

datatype thrown = SyntaxError jsstring | OtherError jsstring | NonError

text \<open>
  The asynchronous sequence \<open>analyzePlantImage\<close> returns: the fragments it yields, in
  order, and how it ends, by completing or by throwing. (A throw of the call itself is
  the stream that throws before its first fragment.) The loop \<open>for await\<close> is taken to
  end: the sequence is finite.
\<close>

datatype ending = Completed | Threw thrown

datatype stream = Stream (fragments: "jsstring list") (ending: ending)

text \<open>
  The calls the handlers make to code outside this file are recorded in order, so that
  a statement can say which calls were made and with which arguments.
\<close>

datatype call =
    AnalyzePlantImage File EnvironmentalData "AnalysisRecord option"
  | AddAnalysisToPlant jsstring AnalysisRecord
  | AddPlant jsstring
  | ConsoleError jsstring jsstring

text \<open>
  What one invocation of a handler gets from outside: the service
  \<open>analyzePlantImage\<close> (\<open>services/geminiService\<close>) and the store's \<open>addPlant\<close> and
  \<open>addAnalysisToPlant\<close> (\<open>hooks/usePlantStore\<close>), none of them among the sources
  and each taken as it comes; the strings the two successive calls
  \<open>new Date().toISOString()\<close> return; the string \<open>new Date().toLocaleString()\<close>
  returns; \<open>URL.createObjectURL\<close>; and the message the engine gives the
  \<open>SyntaxError\<close> of \<open>JSON.parse\<close>. A store function gets the profiles the store holds
  and either throws, leaving them as they are, or returns the profiles it holds
  afterwards.
\<close>

record runtime =
  analyzePlantImage :: "File \<Rightarrow> EnvironmentalData \<Rightarrow> AnalysisRecord option \<Rightarrow> stream"
  addAnalysisToPlant :: "jsstring \<Rightarrow> AnalysisRecord \<Rightarrow> PlantProfile list \<Rightarrow> thrown + PlantProfile list"
  addPlant :: "jsstring \<Rightarrow> PlantProfile list \<Rightarrow> thrown + PlantProfile \<times> PlantProfile list"
  toISOString_1 :: jsstring
  toISOString_2 :: jsstring
  toLocaleString :: jsstring
  createObjectURL :: "File \<Rightarrow> jsstring"
  syntaxErrorMessage :: jsstring

section \<open>The state of \<open>App\<close> and its handlers\<close>

text \<open>
  The state variables of the component, with the profiles of the store
  (\<open>plantProfiles\<close>) and the record of the calls made.
\<close>

record App =
  plantProfiles :: "PlantProfile list"
  activePlant :: "PlantProfile option"
  imageFile :: "File option"
  imageUrl :: "jsstring option"
  environmentalData :: EnvironmentalData
  streamingText :: jsstring
  finalPrediction :: "AnalysisRecord option"
  isLoading :: bool
  error :: "jsstring option"
  currentView :: View
  calls :: "call list"

definition initialEnvironmentalData :: EnvironmentalData where
  "initialEnvironmentalData =
     \<lparr>sunlight = [], watering = [], user_notes = [], organicPreference = False, location = None\<rparr>"

definition initialApp :: "PlantProfile list \<Rightarrow> App" where
  "initialApp ps =
     \<lparr>plantProfiles = ps, activePlant = None, imageFile = None, imageUrl = None,
      environmentalData = initialEnvironmentalData, streamingText = [],
      finalPrediction = None, isLoading = False, error = None, currentView = PROFILER,
      calls = []\<rparr>"

definition precondition_message :: jsstring where
  "precondition_message = js ''An image and an active plant profile are required.''"

definition parse_failure_message :: jsstring where
  "parse_failure_message = js ''Failed to parse the AI response. The data might be malformed.''"

definition unknown_error_message :: jsstring where
  "unknown_error_message = js ''An unknown error occurred.''"

definition console_label :: jsstring where
  "console_label = js ''Full response received before parsing error:''"

definition quick_analysis_message :: jsstring where
  "quick_analysis_message = js ''An unexpected error occurred while creating a new plant.''"

subsection \<open>\<open>submitAnalysis\<close>\<close>

definition previousAnalysis :: "PlantProfile \<Rightarrow> AnalysisRecord option" where
  "previousAnalysis plant =
     (if length (analysisHistory plant) > 0
      then Some (analysisHistory plant ! (length (analysisHistory plant) - 1))
      else None)"

definition newAnalysisRecord ::
  "jsval \<Rightarrow> jsstring \<Rightarrow> jsstring \<Rightarrow> jsstring \<Rightarrow> EnvironmentalData \<Rightarrow> AnalysisRecord" where
  "newAnalysisRecord parsedData i d url env =
     \<lparr>predictionData = filter (\<lambda>(k, v). k \<notin> set stamped_fields) (spread parsedData),
      rec_id = i, rec_date = d, rec_imageUrl = url, rec_environmentalData = env\<rparr>"

text \<open>The four state updates before the \<open>try\<close>, with the change of view.\<close>

definition enterStreaming :: "App \<Rightarrow> App" where
  "enterStreaming s =
     s\<lparr>isLoading := True, error := None, finalPrediction := None, streamingText := [],
       currentView := RESULT\<rparr>"

text \<open>
  One turn of the loop: the fragment is appended to the local \<open>fullResponse\<close> and to
  the state variable \<open>streamingText\<close>.
\<close>

definition receive :: "jsstring \<times> App \<Rightarrow> jsstring \<Rightarrow> jsstring \<times> App" where
  "receive acc chunk =
     (fst acc @ chunk, (snd acc)\<lparr>streamingText := streamingText (snd acc) @ chunk\<rparr>)"

definition catch_block :: "thrown \<Rightarrow> jsstring \<Rightarrow> App \<Rightarrow> App" where
  "catch_block err fullResponse s =
     (case err of
        SyntaxError m \<Rightarrow>
          s\<lparr>error := Some parse_failure_message,
            calls := calls s @ [ConsoleError console_label fullResponse]\<rparr>
      | OtherError m \<Rightarrow> s\<lparr>error := Some m\<rparr>
      | NonError \<Rightarrow> s\<lparr>error := Some unknown_error_message\<rparr>)"

definition finally_block :: "App \<Rightarrow> App" where
  "finally_block s = s\<lparr>isLoading := False\<rparr>"

definition try_block :: "runtime \<Rightarrow> File \<Rightarrow> PlantProfile \<Rightarrow> App \<Rightarrow> App" where
  "try_block rt file plant s1 =
     (let previous = previousAnalysis plant;
          env = environmentalData s1;
          response = analyzePlantImage rt file env previous;
          s2 = s1\<lparr>calls := calls s1 @ [AnalyzePlantImage file env previous]\<rparr>;
          looped = foldl receive ([], s2) (fragments response);
          fullResponse = fst looped;
          s3 = snd looped
      in (case ending response of
           Threw err \<Rightarrow> catch_block err fullResponse s3
         | Completed \<Rightarrow>
             (case JSON_parse fullResponse of
                None \<Rightarrow> catch_block (SyntaxError (syntaxErrorMessage rt)) fullResponse s3
              | Some parsedData \<Rightarrow>
                  (let r = newAnalysisRecord parsedData (toISOString_1 rt) (toISOString_2 rt)
                             (createObjectURL rt file) env;
                       s4 = s3\<lparr>finalPrediction := Some r\<rparr>;
                       s5 = s4\<lparr>calls := calls s4 @ [AddAnalysisToPlant (plant_id plant) r]\<rparr>
                   in (case addAnalysisToPlant rt (plant_id plant) r (plantProfiles s5) of
                         Inl err \<Rightarrow> catch_block err fullResponse s5
                       | Inr ps \<Rightarrow> s5\<lparr>plantProfiles := ps\<rparr>)))))"

definition submitAnalysis :: "runtime \<Rightarrow> App \<Rightarrow> App" where
  "submitAnalysis rt s =
     (case imageFile s of
        None \<Rightarrow> s\<lparr>error := Some precondition_message\<rparr>
      | Some file \<Rightarrow>
          (case activePlant s of
             None \<Rightarrow> s\<lparr>error := Some precondition_message\<rparr>
           | Some plant \<Rightarrow> finally_block (try_block rt file plant (enterStreaming s))))"

subsection \<open>The other handlers\<close>

definition resetAnalysisState :: "App \<Rightarrow> App" where
  "resetAnalysisState s =
     s\<lparr>imageFile := None, imageUrl := None, finalPrediction := None, streamingText := [],
       error := None, isLoading := False, environmentalData := initialEnvironmentalData\<rparr>"

definition handleStartAnalysis :: "PlantProfile \<Rightarrow> App \<Rightarrow> App" where
  "handleStartAnalysis plant s =
     (resetAnalysisState s)\<lparr>activePlant := Some plant, currentView := ANALYSIS\<rparr>"

definition handleImageUpload :: "runtime \<Rightarrow> File \<Rightarrow> App \<Rightarrow> App" where
  "handleImageUpload rt file s =
     s\<lparr>imageFile := Some file, imageUrl := Some (createObjectURL rt file)\<rparr>"

definition handleQuickAnalysis :: "runtime \<Rightarrow> File \<Rightarrow> App \<Rightarrow> App" where
  "handleQuickAnalysis rt file s =
     (let plantName = js ''New Plant - '' @ toLocaleString rt;
          s1 = s\<lparr>calls := calls s @ [AddPlant plantName]\<rparr>
      in (case addPlant rt plantName (plantProfiles s1) of
            Inl e \<Rightarrow>
              (case e of
                 SyntaxError m \<Rightarrow> s1\<lparr>error := Some m\<rparr>
               | OtherError m \<Rightarrow> s1\<lparr>error := Some m\<rparr>
               | NonError \<Rightarrow> s1\<lparr>error := Some quick_analysis_message\<rparr>)
          | Inr (newPlant, ps) \<Rightarrow>
              (handleImageUpload rt file (s1\<lparr>plantProfiles := ps\<rparr>))
                \<lparr>activePlant := Some newPlant, currentView := ANALYSIS\<rparr>))"

definition resetToHome :: "App \<Rightarrow> App" where
  "resetToHome s = (resetAnalysisState s)\<lparr>activePlant := None, currentView := PROFILER\<rparr>"

text \<open>
  The states the component reaches: from the initial state, over any profiles the
  store holds, by the handlers in any order and with any inputs, each invocation running
  to its end before the next starts. \<open>setEnvironmentalData\<close> is what the form calls;
  \<open>addPlant\<close> is what the profiler calls.
\<close>

inductive reachable :: "App \<Rightarrow> bool" where
  initial: "reachable (initialApp ps)"
| startAnalysis: "reachable s \<Longrightarrow> reachable (handleStartAnalysis plant s)"
| imageUpload: "reachable s \<Longrightarrow> reachable (handleImageUpload rt file s)"
| quickAnalysis: "reachable s \<Longrightarrow> reachable (handleQuickAnalysis rt file s)"
| submit: "reachable s \<Longrightarrow> reachable (submitAnalysis rt s)"
| toHome: "reachable s \<Longrightarrow> reachable (resetToHome s)"
| setEnvironmentalData: "reachable s \<Longrightarrow> reachable (s\<lparr>environmentalData := env\<rparr>)"
| profilerAddPlant:
    "reachable s \<Longrightarrow> addPlant (rt :: runtime) name (plantProfiles s) = Inr (p, ps) \<Longrightarrow>
     reachable (s\<lparr>plantProfiles := ps\<rparr>)"

subsection \<open>An attempt, step by step\<close>

text \<open>
  \<open>submitAnalysis\<close> is asynchronous: it is suspended while it waits for the next
  fragment, and other handlers can run in the meantime (the result view offers
  \<open>Back to My Plants\<close> while the attempt is loading). The function \<open>submitAnalysis\<close>
  above is the attempt that nothing interrupts. Here the same handler is cut at its
  suspension points: \<open>begin_attempt\<close> runs it up to the request, \<open>next_fragment\<close> is
  one turn of the loop, applied to the state as it is at that moment, and
  \<open>end_attempt\<close> is what follows the loop, up to the end of the \<open>finally\<close> block.
  What the handler holds in its closure and its local variables (the image, the plant and
  the environmental data it was started with, \<open>fullResponse\<close>, what is left of the
  stream) is an \<open>attempt\<close>. The state updates of the loop are functional
  (\<open>setStreamingText(prev => prev + chunk)\<close>), so they act on the state they find;
  the store's functions are taken to act on the profiles the store holds when called.
\<close>

record attempt =
  att_runtime :: runtime
  att_file :: File
  att_plant :: PlantProfile
  att_env :: EnvironmentalData
  fullResponse :: jsstring
  remaining :: stream

definition begin_attempt :: "runtime \<Rightarrow> App \<Rightarrow> App \<times> attempt option" where
  "begin_attempt rt s =
     (case imageFile s of
        None \<Rightarrow> (s\<lparr>error := Some precondition_message\<rparr>, None)
      | Some file \<Rightarrow>
          (case activePlant s of
             None \<Rightarrow> (s\<lparr>error := Some precondition_message\<rparr>, None)
           | Some plant \<Rightarrow>
               (let s1 = enterStreaming s;
                    previous = previousAnalysis plant;
                    env = environmentalData s1;
                    answer = analyzePlantImage rt file env previous;
                    s2 = s1\<lparr>calls := calls s1 @ [AnalyzePlantImage file env previous]\<rparr>
                in (s2, Some \<lparr>att_runtime = rt, att_file = file, att_plant = plant,
                               att_env = env, fullResponse = [], remaining = answer\<rparr>))))"

definition next_fragment :: "attempt \<Rightarrow> App \<Rightarrow> App \<times> attempt" where
  "next_fragment a t =
     (case fragments (remaining a) of
        [] \<Rightarrow> (t, a)
      | chunk # rest \<Rightarrow>
          (snd (receive (fullResponse a, t) chunk),
           a\<lparr>fullResponse := fst (receive (fullResponse a, t) chunk),
             remaining := Stream rest (ending (remaining a))\<rparr>))"

definition end_attempt :: "attempt \<Rightarrow> App \<Rightarrow> App" where
  "end_attempt a t =
     finally_block
       (case ending (remaining a) of
          Threw err \<Rightarrow> catch_block err (fullResponse a) t
        | Completed \<Rightarrow>
            (case JSON_parse (fullResponse a) of
               None \<Rightarrow>
                 catch_block (SyntaxError (syntaxErrorMessage (att_runtime a))) (fullResponse a) t
             | Some parsedData \<Rightarrow>
                 (let r = newAnalysisRecord parsedData (toISOString_1 (att_runtime a))
                            (toISOString_2 (att_runtime a))
                            (createObjectURL (att_runtime a) (att_file a)) (att_env a);
                      t4 = t\<lparr>finalPrediction := Some r\<rparr>;
                      t5 = t4\<lparr>calls := calls t4 @ [AddAnalysisToPlant (plant_id (att_plant a)) r]\<rparr>
                  in (case addAnalysisToPlant (att_runtime a) (plant_id (att_plant a)) r
                             (plantProfiles t5) of
                        Inl err \<Rightarrow> catch_block err (fullResponse a) t5
                      | Inr ps \<Rightarrow> t5\<lparr>plantProfiles := ps\<rparr>))))"

text \<open>
  \<open>k\<close> turns of the loop with nothing in between, and the whole attempt with nothing
  in between.
\<close>

fun receive_fragments :: "nat \<Rightarrow> App \<times> attempt \<Rightarrow> App \<times> attempt" where
  "receive_fragments 0 x = x"
| "receive_fragments (Suc k) x = receive_fragments k (next_fragment (snd x) (fst x))"

definition uninterrupted :: "attempt \<Rightarrow> App \<Rightarrow> App" where
  "uninterrupted a t =
     (let x = receive_fragments (length (fragments (remaining a))) (t, a)
      in end_attempt (snd x) (fst x))"

subsection \<open>What an attempt is given\<close>

text \<open>The sequence an attempt consumes: the service's answer to the request it makes.\<close>

definition response :: "runtime \<Rightarrow> File \<Rightarrow> PlantProfile \<Rightarrow> App \<Rightarrow> stream" where
  "response rt file plant s =
     analyzePlantImage rt file (environmentalData s) (previousAnalysis plant)"

text \<open>The message the \<open>catch\<close> block of \<open>submitAnalysis\<close> stores for a thrown value.\<close>

definition reported :: "thrown \<Rightarrow> jsstring" where
  "reported e =
     (case e of
        SyntaxError m \<Rightarrow> parse_failure_message
      | OtherError m \<Rightarrow> m
      | NonError \<Rightarrow> unknown_error_message)"

definition is_request :: "call \<Rightarrow> bool" where
  "is_request c = (case c of AnalyzePlantImage f e p \<Rightarrow> True | _ \<Rightarrow> False)"


text \<open>Several attempts, one after the other.\<close>

definition attempts :: "runtime list \<Rightarrow> App \<Rightarrow> App" where
  "attempts rts s = foldl (\<lambda>s' rt. submitAnalysis rt s') s rts"

text \<open>
  The record an attempt builds when its stream completes and its payload parses, and
  \<open>None\<close> when the attempt fails before that.
\<close>

definition built_record :: "runtime \<Rightarrow> App \<Rightarrow> AnalysisRecord option" where
  "built_record rt s =
     (case imageFile s of
        None \<Rightarrow> None
      | Some file \<Rightarrow>
          (case activePlant s of
             None \<Rightarrow> None
           | Some plant \<Rightarrow>
               (case ending (response rt file plant s) of
                  Threw e \<Rightarrow> None
                | Completed \<Rightarrow>
                    (case JSON_parse (concat (fragments (response rt file plant s))) of
                       None \<Rightarrow> None
                     | Some v \<Rightarrow>
                         Some (newAnalysisRecord v (toISOString_1 rt) (toISOString_2 rt)
                                 (createObjectURL rt file) (environmentalData s))))))"

text \<open>
  The records a run of attempts builds, in the order of the attempts; an attempt that
  fails contributes none.
\<close>

definition committed :: "runtime list \<Rightarrow> App \<Rightarrow> AnalysisRecord list" where
  "committed rts s =
     concat (map (\<lambda>rt. case built_record rt s of None \<Rightarrow> [] | Some r \<Rightarrow> [r]) rts)"

section \<open>The history store\<close>

text \<open>The history the store holds for a profile, found by the profile's identifier.\<close>

definition historyOf :: "jsstring \<Rightarrow> PlantProfile list \<Rightarrow> AnalysisRecord list option" where
  "historyOf pid ps = map_option analysisHistory (find (\<lambda>p. plant_id p = pid) ps)"

text \<open>
  Modelled from the spec: \<open>addAnalysisToPlant\<close> of \<open>hooks/usePlantStore\<close> is not among
  the sources. The specification describes it as the store's
  \<open>append(profileId, record)\<close>: it appends the record to the history of the profile
  with that identifier and fails with \<open>NotFoundError\<close> if no profile has it; appending
  is the only way a history changes. The value thrown for an unknown profile is a
  parameter here, since the specification names the error and not its message.
\<close>

definition addAnalysisToPlant_spec ::
  "thrown \<Rightarrow> jsstring \<Rightarrow> AnalysisRecord \<Rightarrow> PlantProfile list \<Rightarrow> thrown + PlantProfile list" where
  "addAnalysisToPlant_spec notFound pid r ps =
     (if pid \<in> plant_id ` set ps
      then Inr (map (\<lambda>p. if plant_id p = pid
                          then p\<lparr>analysisHistory := analysisHistory p @ [r]\<rparr> else p) ps)
      else Inl notFound)"

section \<open>An example\<close>

text \<open>
  A plant with no analysis yet, a photo, and a runtime that answers every request with
  a given stream: the inputs at which the statements below are evaluated.
\<close>

definition photo :: File where
  "photo = File (js ''basil.jpg'') [0xFF, 0xD8, 0xFF]"

definition basil :: PlantProfile where
  "basil = \<lparr>plant_id = js ''1'', plant_name = js ''Basil'', analysisHistory = []\<rparr>"

definition example_runtime :: "stream \<Rightarrow> runtime" where
  "example_runtime answer =
     \<lparr>analyzePlantImage = (\<lambda>file env previous. answer),
      addAnalysisToPlant = addAnalysisToPlant_spec (OtherError (js ''NotFoundError'')),
      addPlant = (\<lambda>name ps.
        Inr (\<lparr>plant_id = name, plant_name = name, analysisHistory = []\<rparr>,
             ps @ [\<lparr>plant_id = name, plant_name = name, analysisHistory = []\<rparr>])),
      toISOString_1 = js ''2024-05-01T10:00:00.000Z'',
      toISOString_2 = js ''2024-05-01T10:00:00.000Z'',
      toLocaleString = js ''5/1/2024, 10:00:00 AM'',
      createObjectURL = (\<lambda>file. js ''blob:'' @ file_name file),
      syntaxErrorMessage = js ''Unexpected end of JSON input''\<rparr>"

definition ready :: App where
  "ready =
     handleImageUpload (example_runtime (Stream [] Completed)) photo
       (handleStartAnalysis basil (initialApp [basil]))"

text \<open>The same plant with one analysis in its history, and the state ready to analyse it.\<close>

definition first_record :: AnalysisRecord where
  "first_record =
     \<lparr>predictionData = [(js ''plantName'', JStr (js ''Basil'')), (js ''isHealthy'', JBool False)],
      rec_id = js ''2024-04-01T09:00:00.000Z'', rec_date = js ''2024-04-01T09:00:00.001Z'',
      rec_imageUrl = js ''blob:april.jpg'', rec_environmentalData = initialEnvironmentalData\<rparr>"

definition grown_basil :: PlantProfile where
  "grown_basil = basil\<lparr>analysisHistory := [first_record]\<rparr>"

definition ready_again :: App where
  "ready_again =
     handleImageUpload (example_runtime (Stream [] Completed)) photo
       (handleStartAnalysis grown_basil (initialApp [grown_basil]))"

text \<open>
  Answers of the service: a payload of a healthy basil in three fragments; a payload
  that is valid JSON, lacks most fields and carries a \<open>confidenceScore\<close> of 5 and a
  \<open>progressAssessment\<close> of \<open>Great\<close>; a payload cut short, from a stream that
  completes, from one that throws an \<open>Error\<close> and from one that throws a
  \<open>SyntaxError\<close>.
\<close>

definition basil_answer :: stream where
  \<open>basil_answer =
     Stream [js ''{"plantName":"Basil",'', js ''"isHealthy":true,"confidenceScore":0.92,'',
             js ''"progressAssessment":"N/A"}''] Completed\<close>

definition unchecked_answer :: stream where
  \<open>unchecked_answer =
     Stream [js ''{"confidenceScore":5,'', js ''"progressAssessment":"Great"}''] Completed\<close>

definition truncated_answer :: stream where
  \<open>truncated_answer = Stream [js ''{"plantName":'', js ''"Bas''] Completed\<close>

definition broken_answer :: stream where
  \<open>broken_answer =
     Stream [js ''{"plantName":'', js ''"Bas''] (Threw (OtherError (js ''Failed to fetch'')))\<close>

definition misparsed_answer :: stream where
  \<open>misparsed_answer =
     Stream [js ''{"plantName":'', js ''"Bas''] (Threw (SyntaxError (js ''Unexpected token'')))\<close>

text \<open>The records built from the first two answers under the example runtime.\<close>

definition basil_record :: AnalysisRecord where
  \<open>basil_record =
     \<lparr>predictionData =
        [(js ''plantName'', JStr (js ''Basil'')), (js ''isHealthy'', JBool True),
         (js ''confidenceScore'', JNum (js ''0.92'')),
         (js ''progressAssessment'', JStr (js ''N/A''))],
      rec_id = js ''2024-05-01T10:00:00.000Z'', rec_date = js ''2024-05-01T10:00:00.000Z'',
      rec_imageUrl = js ''blob:basil.jpg'',
      rec_environmentalData = initialEnvironmentalData\<rparr>\<close>

definition unchecked_record :: AnalysisRecord where
  \<open>unchecked_record =
     \<lparr>predictionData =
        [(js ''confidenceScore'', JNum (js ''5'')),
         (js ''progressAssessment'', JStr (js ''Great''))],
      rec_id = js ''2024-05-01T10:00:00.000Z'', rec_date = js ''2024-05-01T10:00:00.000Z'',
      rec_imageUrl = js ''blob:basil.jpg'',
      rec_environmentalData = initialEnvironmentalData\<rparr>\<close>

text \<open>
  The plant analysed, and analysed a second time after the user went back to the
  plants, started an analysis of the plant as the store holds it and chose the photo
  again. The clock reads the same both times.
\<close>

definition analysed_once :: App where
  "analysed_once = submitAnalysis (example_runtime basil_answer) ready"

definition analysed_twice :: App where
  "analysed_twice =
     submitAnalysis (example_runtime unchecked_answer)
       (handleImageUpload (example_runtime unchecked_answer) photo
         (handleStartAnalysis (hd (plantProfiles analysed_once)) (resetToHome analysed_once)))"


definition probing_runtime :: runtime where
  "probing_runtime =
     (example_runtime basil_answer)
       \<lparr>analyzePlantImage := (\<lambda>file env previous.
          case previous of
            None \<Rightarrow> basil_answer
          | Some r \<Rightarrow> Stream [] (Threw (OtherError (rec_id r))))\<rparr>"

definition back_during_streaming :: "App \<times> attempt" where
  "back_during_streaming =
     (let b = begin_attempt (example_runtime basil_answer) ready;
          x1 = next_fragment (the (snd b)) (fst b);
          x2 = next_fragment (snd x1) (resetToHome (fst x1))
      in x2)"

section \<open>Properties of \<open>submitAnalysis\<close>\<close>

subsection \<open>The attempt in closed form\<close>

text \<open>The state when the loop has consumed the fragments \<open>fs\<close>.\<close>

definition streamed :: "File \<Rightarrow> PlantProfile \<Rightarrow> jsstring list \<Rightarrow> App \<Rightarrow> App" where
  "streamed file plant fs s =
     s\<lparr>isLoading := True, error := None, finalPrediction := None, currentView := RESULT,
       calls := calls s @ [AnalyzePlantImage file (environmentalData s) (previousAnalysis plant)],
       streamingText := concat fs\<rparr>"

lemma foldl_receive:
  "foldl receive (full, s) fs =
     (full @ concat fs, s\<lparr>streamingText := streamingText s @ concat fs\<rparr>)"
  by (induction fs arbitrary: full s) (simp_all add: receive_def)

lemma submitAnalysis_precondition:
  "imageFile s = None \<or> activePlant s = None \<Longrightarrow>
   submitAnalysis rt s = s\<lparr>error := Some precondition_message\<rparr>"
  by (auto simp: submitAnalysis_def split: option.splits)

lemma submitAnalysis_threw:
  assumes "imageFile s = Some file" and "activePlant s = Some plant"
    and "response rt file plant s = Stream fs (Threw e)"
  shows "submitAnalysis rt s = finally_block (catch_block e (concat fs) (streamed file plant fs s))"
  using assms
  by (simp add: submitAnalysis_def try_block_def enterStreaming_def foldl_receive streamed_def
      response_def Let_def)

lemma submitAnalysis_unparsed:
  assumes "imageFile s = Some file" and "activePlant s = Some plant"
    and "response rt file plant s = Stream fs Completed"
    and "JSON_parse (concat fs) = None"
  shows "submitAnalysis rt s =
           finally_block (catch_block (SyntaxError (syntaxErrorMessage rt)) (concat fs)
             (streamed file plant fs s))"
  using assms
  by (simp add: submitAnalysis_def try_block_def enterStreaming_def foldl_receive streamed_def
      response_def Let_def)

lemma submitAnalysis_parsed:
  assumes "imageFile s = Some file" and "activePlant s = Some plant"
    and "response rt file plant s = Stream fs Completed"
    and "JSON_parse (concat fs) = Some v"
    and "r = newAnalysisRecord v (toISOString_1 rt) (toISOString_2 rt) (createObjectURL rt file)
               (environmentalData s)"
    and "s5 = (streamed file plant fs s)\<lparr>finalPrediction := Some r,
               calls := calls (streamed file plant fs s) @ [AddAnalysisToPlant (plant_id plant) r]\<rparr>"
  shows "submitAnalysis rt s =
           (case addAnalysisToPlant rt (plant_id plant) r (plantProfiles s) of
              Inl err \<Rightarrow> finally_block (catch_block err (concat fs) s5)
            | Inr ps \<Rightarrow> finally_block (s5\<lparr>plantProfiles := ps\<rparr>))"
  using assms
  by (simp add: submitAnalysis_def try_block_def enterStreaming_def foldl_receive streamed_def
      response_def Let_def split: sum.splits)

lemma catch_block_fields:
  "error (catch_block e full s) = Some (reported e)"
  "isLoading (catch_block e full s) = isLoading s"
  "finalPrediction (catch_block e full s) = finalPrediction s"
  "plantProfiles (catch_block e full s) = plantProfiles s"
  "streamingText (catch_block e full s) = streamingText s"
  "activePlant (catch_block e full s) = activePlant s"
  "imageFile (catch_block e full s) = imageFile s"
  "environmentalData (catch_block e full s) = environmentalData s"
  "calls (catch_block e full s) =
     calls s @ (case e of SyntaxError m \<Rightarrow> [ConsoleError console_label full] | _ \<Rightarrow> [])"
  by (simp_all add: catch_block_def reported_def split: thrown.splits)

lemma ready_explicit:
  "ready =
     \<lparr>plantProfiles = [basil], activePlant = Some basil, imageFile = Some photo,
      imageUrl = Some (js ''blob:'' @ file_name photo),
      environmentalData = initialEnvironmentalData, streamingText = [],
      finalPrediction = None, isLoading = False, error = None, currentView = ANALYSIS,
      calls = []\<rparr>"
  by (simp add: ready_def handleImageUpload_def handleStartAnalysis_def resetAnalysisState_def
      initialApp_def example_runtime_def)

lemma finally_block_fields:
  "isLoading (finally_block s) = False"
  "error (finally_block s) = error s"
  "finalPrediction (finally_block s) = finalPrediction s"
  "plantProfiles (finally_block s) = plantProfiles s"
  "streamingText (finally_block s) = streamingText s"
  "activePlant (finally_block s) = activePlant s"
  "imageFile (finally_block s) = imageFile s"
  "environmentalData (finally_block s) = environmentalData s"
  "calls (finally_block s) = calls s"
  by (simp_all add: finally_block_def)

lemma streamed_fields:
  "isLoading (streamed file plant fs s) = True"
  "error (streamed file plant fs s) = None"
  "finalPrediction (streamed file plant fs s) = None"
  "plantProfiles (streamed file plant fs s) = plantProfiles s"
  "streamingText (streamed file plant fs s) = concat fs"
  "activePlant (streamed file plant fs s) = activePlant s"
  "imageFile (streamed file plant fs s) = imageFile s"
  "environmentalData (streamed file plant fs s) = environmentalData s"
  "calls (streamed file plant fs s) =
     calls s @ [AnalyzePlantImage file (environmentalData s) (previousAnalysis plant)]"
  by (simp_all add: streamed_def)

lemma response_collapse:
  "response rt file plant s =
     Stream (fragments (response rt file plant s)) (ending (response rt file plant s))"
  by simp

lemma submitAnalysis_frame:
  assumes "imageFile s = Some file" and "activePlant s = Some plant"
  shows "streamingText (submitAnalysis rt s) = concat (fragments (response rt file plant s))"
    and "isLoading (submitAnalysis rt s) = False"
    and "imageFile (submitAnalysis rt s) = imageFile s"
    and "activePlant (submitAnalysis rt s) = activePlant s"
    and "environmentalData (submitAnalysis rt s) = environmentalData s"
proof -
  let ?resp = "response rt file plant s"
  let ?fs = "fragments ?resp"
  have "streamingText (submitAnalysis rt s) = concat ?fs
      \<and> isLoading (submitAnalysis rt s) = False
      \<and> imageFile (submitAnalysis rt s) = imageFile s
      \<and> activePlant (submitAnalysis rt s) = activePlant s
      \<and> environmentalData (submitAnalysis rt s) = environmentalData s"
  proof (cases "ending ?resp")
    case (Threw e)
    then have "?resp = Stream ?fs (Threw e)"
      using response_collapse [of rt "file" plant s] by simp
    from submitAnalysis_threw [OF assms this] show ?thesis
      by (simp add: finally_block_fields catch_block_fields streamed_fields)
  next
    case Completed
    then have resp: "?resp = Stream ?fs Completed"
      using response_collapse [of rt "file" plant s] by simp
    show ?thesis
    proof (cases "JSON_parse (concat ?fs)")
      case None
      from submitAnalysis_unparsed [OF assms resp None] show ?thesis
        by (simp add: finally_block_fields catch_block_fields streamed_fields)
    next
      case (Some v)
      from submitAnalysis_parsed [OF assms resp Some refl refl] show ?thesis
        by (simp add: finally_block_fields catch_block_fields streamed_fields split: sum.splits)
    qed
  qed
  then show "streamingText (submitAnalysis rt s) = concat (fragments (response rt file plant s))"
    and "isLoading (submitAnalysis rt s) = False"
    and "imageFile (submitAnalysis rt s) = imageFile s"
    and "activePlant (submitAnalysis rt s) = activePlant s"
    and "environmentalData (submitAnalysis rt s) = environmentalData s"
    by simp_all
qed

lemma isLoading_submitAnalysis:
  "isLoading (submitAnalysis rt s) =
     (if imageFile s = None \<or> activePlant s = None then isLoading s else False)"
proof (cases "imageFile s = None \<or> activePlant s = None")
  case True
  then show ?thesis by (simp add: submitAnalysis_precondition)
next
  case False
  then obtain img plant where "imageFile s = Some img" "activePlant s = Some plant" by auto
  from submitAnalysis_frame(2) [OF this, of rt] False show ?thesis by auto
qed

lemma reachable_not_loading: "reachable s \<Longrightarrow> \<not> isLoading s"
proof (induction rule: reachable.induct)
  case (initial ps)
  show ?case by (simp add: initialApp_def)
next
  case (startAnalysis s plant)
  show ?case by (simp add: handleStartAnalysis_def resetAnalysisState_def)
next
  case (imageUpload s rt img)
  then show ?case by (simp add: handleImageUpload_def)
next
  case (quickAnalysis s rt img)
  then show ?case
    by (simp add: handleQuickAnalysis_def handleImageUpload_def Let_def
        split: sum.splits thrown.splits prod.splits)
next
  case (submit s rt)
  then show ?case by (simp add: isLoading_submitAnalysis)
next
  case (toHome s)
  show ?case by (simp add: resetToHome_def resetAnalysisState_def)
next
  case (setEnvironmentalData s env)
  then show ?case by simp
next
  case (profilerAddPlant s rt name p ps)
  then show ?case by simp
qed

lemma reachable_ready: "reachable ready"
  unfolding ready_def
  by (intro reachable.imageUpload reachable.startAnalysis reachable.initial)

lemma ready_again_explicit:
  "ready_again =
     \<lparr>plantProfiles = [grown_basil], activePlant = Some grown_basil, imageFile = Some photo,
      imageUrl = Some (js ''blob:'' @ file_name photo),
      environmentalData = initialEnvironmentalData, streamingText = [],
      finalPrediction = None, isLoading = False, error = None, currentView = ANALYSIS,
      calls = []\<rparr>"
  by (simp add: ready_again_def handleImageUpload_def handleStartAnalysis_def
      resetAnalysisState_def initialApp_def example_runtime_def)

lemma previousAnalysis_last:
  "previousAnalysis plant =
     (if analysisHistory plant = [] then None else Some (last (analysisHistory plant)))"
  by (simp add: previousAnalysis_def last_conv_nth)

lemma submitAnalysis_calls:
  assumes "imageFile s = Some file" and "activePlant s = Some plant"
  shows "\<exists>rest. calls (submitAnalysis rt s) =
           calls s @ AnalyzePlantImage file (environmentalData s) (previousAnalysis plant) # rest
         \<and> filter is_request rest = []"
proof -
  let ?resp = "response rt file plant s"
  let ?fs = "fragments ?resp"
  show ?thesis
  proof (cases "ending ?resp")
    case (Threw e)
    then have "?resp = Stream ?fs (Threw e)"
      using response_collapse [of rt "file" plant s] by simp
    from submitAnalysis_threw [OF assms this] show ?thesis
      by (simp add: finally_block_fields catch_block_fields streamed_fields is_request_def
          split: thrown.splits)
  next
    case Completed
    then have resp: "?resp = Stream ?fs Completed"
      using response_collapse [of rt "file" plant s] by simp
    show ?thesis
    proof (cases "JSON_parse (concat ?fs)")
      case None
      from submitAnalysis_unparsed [OF assms resp None] show ?thesis
        by (simp add: finally_block_fields catch_block_fields streamed_fields is_request_def)
    next
      case (Some v)
      from submitAnalysis_parsed [OF assms resp Some refl refl] show ?thesis
        by (simp add: finally_block_fields catch_block_fields streamed_fields is_request_def
            split: sum.splits thrown.splits)
    qed
  qed
qed


lemma map_of_filter_key:
  "P k \<Longrightarrow> map_of (filter (\<lambda>(k', v). P k') ps) k = map_of ps k"
  by (induction ps) auto

lemma PredictionData_fields_not_stamped:
  "k \<in> set PredictionData_fields \<Longrightarrow> k \<notin> set stamped_fields"
  by (auto simp: PredictionData_fields_def stamped_fields_def js_def ch_def)

lemma newAnalysisRecord_fields:
  assumes "k \<in> set PredictionData_fields"
  shows "map_of (predictionData (newAnalysisRecord v i d url env)) k = own_property v k"
  using map_of_filter_key [of "\<lambda>k'. k' \<notin> set stamped_fields" k "spread v"]
    PredictionData_fields_not_stamped [OF assms]
  by (simp add: newAnalysisRecord_def own_property_def)

lemma submitAnalysis_completed:
  assumes "imageFile s = Some file" and "activePlant s = Some plant"
    and "ending (response rt file plant s) = Completed"
  shows "response rt file plant s = Stream (fragments (response rt file plant s)) Completed"
  using assms(3) response_collapse [of rt "file" plant s] by simp

lemma historyOf_Cons:
  "historyOf pid (p # ps) =
     (if plant_id p = pid then Some (analysisHistory p) else historyOf pid ps)"
  by (simp add: historyOf_def)

lemma historyOf_Some_member: "historyOf pid ps = Some h \<Longrightarrow> pid \<in> plant_id ` set ps"
  by (induction ps) (auto simp: historyOf_Cons historyOf_def split: if_splits)

lemma historyOf_appended:
  "historyOf q (map (\<lambda>p. if plant_id p = pid
                           then p\<lparr>analysisHistory := analysisHistory p @ [r]\<rparr> else p) ps) =
     (if q = pid then map_option (\<lambda>h. h @ [r]) (historyOf q ps) else historyOf q ps)"
  by (induction ps) (auto simp: historyOf_Cons historyOf_def)

lemma addAnalysisToPlant_spec_appends:
  assumes "historyOf pid ps = Some h"
  shows "\<exists>ps'. addAnalysisToPlant_spec notFound pid r ps = Inr ps'
           \<and> historyOf pid ps' = Some (h @ [r])
           \<and> (\<forall>q. q \<noteq> pid \<longrightarrow> historyOf q ps' = historyOf q ps)"
  using assms historyOf_Some_member [OF assms]
  by (simp add: addAnalysisToPlant_spec_def historyOf_appended)

lemma submitAnalysis_keeps_inputs:
  "imageFile (submitAnalysis rt s) = imageFile s
   \<and> activePlant (submitAnalysis rt s) = activePlant s
   \<and> environmentalData (submitAnalysis rt s) = environmentalData s"
proof (cases "imageFile s = None \<or> activePlant s = None")
  case True
  then show ?thesis by (simp add: submitAnalysis_precondition)
next
  case False
  then obtain img plant where "imageFile s = Some img" "activePlant s = Some plant" by auto
  from submitAnalysis_frame(3,4,5) [OF this, of rt] show ?thesis by simp
qed

lemma built_record_after_attempt:
  "built_record rt (submitAnalysis rt' s) = built_record rt s"
proof -
  from submitAnalysis_keeps_inputs [of rt' s]
  have "imageFile (submitAnalysis rt' s) = imageFile s"
    and "activePlant (submitAnalysis rt' s) = activePlant s"
    and "environmentalData (submitAnalysis rt' s) = environmentalData s"
    by simp_all
  then show ?thesis
    by (simp add: built_record_def response_def cong: option.case_cong ending.case_cong)
qed

lemma committed_after_attempt: "committed rts (submitAnalysis rt' s) = committed rts s"
  by (simp add: committed_def built_record_after_attempt)

lemma attempt_with_spec_store:
  assumes store: "addAnalysisToPlant rt = addAnalysisToPlant_spec notFound"
    and act: "activePlant s = Some plant"
    and hist: "historyOf (plant_id plant) (plantProfiles s) = Some h"
  shows "historyOf (plant_id plant) (plantProfiles (submitAnalysis rt s)) =
           Some (h @ (case built_record rt s of None \<Rightarrow> [] | Some r \<Rightarrow> [r]))
       \<and> (\<forall>q. q \<noteq> plant_id plant \<longrightarrow>
              historyOf q (plantProfiles (submitAnalysis rt s)) = historyOf q (plantProfiles s))
       \<and> (\<forall>r. built_record rt s = Some r \<longrightarrow>
              error (submitAnalysis rt s) = None \<and> finalPrediction (submitAnalysis rt s) = Some r)"
proof (cases "imageFile s")
  case None
  then show ?thesis
    using hist by (simp add: submitAnalysis_precondition built_record_def)
next
  case (Some img)
  let ?resp = "response rt img plant s"
  show ?thesis
  proof (cases "ending ?resp")
    case (Threw e)
    then have "?resp = Stream (fragments ?resp) (Threw e)"
      using response_collapse [of rt img plant s] by simp
    from submitAnalysis_threw [OF Some act this] Threw hist show ?thesis
      by (simp add: finally_block_fields catch_block_fields streamed_fields built_record_def
          Some act)
  next
    case Completed
    note resp = submitAnalysis_completed [OF Some act Completed]
    show ?thesis
    proof (cases "JSON_parse (concat (fragments ?resp))")
      case None
      from submitAnalysis_unparsed [OF Some act resp None] Completed hist show ?thesis
        by (simp add: finally_block_fields catch_block_fields streamed_fields built_record_def
            Some act None)
    next
      case parsed: (Some v)
      let ?r = "newAnalysisRecord v (toISOString_1 rt) (toISOString_2 rt)
                  (createObjectURL rt img) (environmentalData s)"
      have built: "built_record rt s = Some ?r"
        by (simp add: built_record_def Some act Completed parsed)
      from addAnalysisToPlant_spec_appends [OF hist, of notFound ?r] obtain ps' where
        ps': "addAnalysisToPlant_spec notFound (plant_id plant) ?r (plantProfiles s) = Inr ps'"
        and h': "historyOf (plant_id plant) ps' = Some (h @ [?r])"
        and others: "\<forall>q. q \<noteq> plant_id plant \<longrightarrow> historyOf q ps' = historyOf q (plantProfiles s)"
        by blast
      from submitAnalysis_parsed [OF Some act resp parsed refl refl] ps' store
      have "plantProfiles (submitAnalysis rt s) = ps'"
        and "error (submitAnalysis rt s) = None"
        and "finalPrediction (submitAnalysis rt s) = Some ?r"
        by (simp_all add: finally_block_fields streamed_fields)
      with built h' others show ?thesis by simp
    qed
  qed
qed

lemma attempts_Cons: "attempts (rt # rts) s = attempts rts (submitAnalysis rt s)"
  by (simp add: attempts_def)

lemma committed_Cons:
  "committed (rt # rts) s =
     (case built_record rt s of None \<Rightarrow> [] | Some r \<Rightarrow> [r]) @ committed rts s"
  by (simp add: committed_def)

lemma attempts_with_spec_store:
  assumes "\<forall>rt\<in>set rts. addAnalysisToPlant rt = addAnalysisToPlant_spec notFound"
    and "activePlant s = Some plant"
    and "historyOf (plant_id plant) (plantProfiles s) = Some h"
  shows "historyOf (plant_id plant) (plantProfiles (attempts rts s)) = Some (h @ committed rts s)
       \<and> (\<forall>q. q \<noteq> plant_id plant \<longrightarrow>
              historyOf q (plantProfiles (attempts rts s)) = historyOf q (plantProfiles s))"
  using assms
proof (induction rts arbitrary: s h)
  case Nil
  then show ?case by (simp add: attempts_def committed_def)
next
  case (Cons rt rts)
  let ?s' = "submitAnalysis rt s"
  let ?c = "case built_record rt s of None \<Rightarrow> [] | Some r \<Rightarrow> [r]"
  from Cons.prems(1) have store: "addAnalysisToPlant rt = addAnalysisToPlant_spec notFound"
    and rest: "\<forall>rt\<in>set rts. addAnalysisToPlant rt = addAnalysisToPlant_spec notFound"
    by simp_all
  from attempt_with_spec_store [OF store Cons.prems(2,3)]
  have h': "historyOf (plant_id plant) (plantProfiles ?s') = Some (h @ ?c)"
    and others: "\<forall>q. q \<noteq> plant_id plant \<longrightarrow>
                   historyOf q (plantProfiles ?s') = historyOf q (plantProfiles s)"
    by simp_all
  have act': "activePlant ?s' = Some plant"
    using submitAnalysis_keeps_inputs [of rt s] Cons.prems(2) by simp
  from Cons.IH [OF rest act' h'] others show ?case
    by (simp add: attempts_Cons committed_Cons committed_after_attempt)
qed

lemma committed_all_built:
  "\<forall>rt\<in>set rts. built_record rt s \<noteq> None \<Longrightarrow>
   committed rts s = map (\<lambda>rt. the (built_record rt s)) rts"
  by (induction rts) (auto simp: committed_Cons committed_def)

lemma basil_answer_parse:
  \<open>JSON_parse (concat (fragments basil_answer)) =
     Some (JObj [(js ''plantName'', JStr (js ''Basil'')), (js ''isHealthy'', JBool True),
                 (js ''confidenceScore'', JNum (js ''0.92'')),
                 (js ''progressAssessment'', JStr (js ''N/A''))])\<close>
  by (simp add: basil_answer_def js_simps)

lemma unchecked_answer_parse:
  \<open>JSON_parse (concat (fragments unchecked_answer)) =
     Some (JObj [(js ''confidenceScore'', JNum (js ''5'')),
                 (js ''progressAssessment'', JStr (js ''Great''))])\<close>
  by (simp add: unchecked_answer_def js_simps)

lemma truncated_answer_parse: "JSON_parse (concat (fragments truncated_answer)) = None"
  by (simp add: truncated_answer_def js_simps)

lemma example_response: "response (example_runtime answer) img plant s = answer"
  by (simp add: response_def example_runtime_def)

lemma example_store:
  "addAnalysisToPlant (example_runtime answer) =
     addAnalysisToPlant_spec (OtherError (js ''NotFoundError''))"
  by (simp add: example_runtime_def)

lemma example_built_record:
  assumes "imageFile s = Some photo" and "activePlant s = Some plant"
    and "environmentalData s = initialEnvironmentalData"
    and "ending answer = Completed" and "JSON_parse (concat (fragments answer)) = Some v"
  shows "built_record (example_runtime answer) s =
           Some \<lparr>predictionData = filter (\<lambda>(k, x). k \<notin> set stamped_fields) (spread v),
                 rec_id = js ''2024-05-01T10:00:00.000Z'',
                 rec_date = js ''2024-05-01T10:00:00.000Z'',
                 rec_imageUrl = js ''blob:basil.jpg'',
                 rec_environmentalData = initialEnvironmentalData\<rparr>"
  using assms
  by (simp add: built_record_def example_response newAnalysisRecord_def)
    (simp add: example_runtime_def photo_def js_def)

lemma built_basil_record:
  assumes "imageFile s = Some photo" and "activePlant s = Some plant"
    and "environmentalData s = initialEnvironmentalData"
  shows "built_record (example_runtime basil_answer) s = Some basil_record"
proof -
  have "ending basil_answer = Completed" by (simp add: basil_answer_def)
  from example_built_record [OF assms this basil_answer_parse] show ?thesis
    by (simp add: basil_record_def spread_def stamped_fields_def js_def ch_def)
qed

lemma built_unchecked_record:
  assumes "imageFile s = Some photo" and "activePlant s = Some plant"
    and "environmentalData s = initialEnvironmentalData"
  shows "built_record (example_runtime unchecked_answer) s = Some unchecked_record"
proof -
  have "ending unchecked_answer = Completed" by (simp add: unchecked_answer_def)
  from example_built_record [OF assms this unchecked_answer_parse] show ?thesis
    by (simp add: unchecked_record_def spread_def stamped_fields_def js_def ch_def)
qed

lemma ready_fields:
  "imageFile ready = Some photo" "activePlant ready = Some basil"
  "environmentalData ready = initialEnvironmentalData"
  "plantProfiles ready = [basil]" "calls ready = []"
  "historyOf (plant_id basil) (plantProfiles ready) = Some []"
  "plant_id basil = js ''1''"
  by (simp_all add: ready_explicit historyOf_def basil_def)


lemma analysed_once_store:
  "plantProfiles analysed_once = [basil\<lparr>analysisHistory := [basil_record]\<rparr>]"
proof -
  have resp: "response (example_runtime basil_answer) photo basil ready =
                Stream (fragments basil_answer) Completed"
    by (simp add: example_response basil_answer_def)
  have r: "newAnalysisRecord
             (JObj [(js ''plantName'', JStr (js ''Basil'')), (js ''isHealthy'', JBool True),
                    (js ''confidenceScore'', JNum (js ''0.92'')),
                    (js ''progressAssessment'', JStr (js ''N/A''))])
             (toISOString_1 (example_runtime basil_answer))
             (toISOString_2 (example_runtime basil_answer))
             (createObjectURL (example_runtime basil_answer) photo) (environmentalData ready) =
           basil_record"
    using built_basil_record [OF ready_fields(1,2,3)] basil_answer_parse
    by (simp add: built_record_def ready_fields example_response basil_answer_def)
  have store: "addAnalysisToPlant (example_runtime basil_answer) (plant_id basil) basil_record
                 (plantProfiles ready) = Inr [basil\<lparr>analysisHistory := [basil_record]\<rparr>]"
    by (simp add: example_store addAnalysisToPlant_spec_def ready_fields(4) basil_def)
  from submitAnalysis_parsed [OF ready_fields(1,2) resp basil_answer_parse refl refl]
  show ?thesis
    unfolding analysed_once_def by (simp add: r store finally_block_fields)
qed

subsection \<open>The attempt step by step\<close>

lemma next_fragment_Cons:
  "fragments (remaining a) = chunk # rest \<Longrightarrow>
   next_fragment a t =
     (t\<lparr>streamingText := streamingText t @ chunk\<rparr>,
      a\<lparr>fullResponse := fullResponse a @ chunk,
        remaining := Stream rest (ending (remaining a))\<rparr>)"
  by (simp add: next_fragment_def receive_def)

lemma next_fragment_Nil:
  "fragments (remaining a) = [] \<Longrightarrow> next_fragment a t = (t, a)"
  by (simp add: next_fragment_def)

lemma receive_fragments_closed:
  "receive_fragments k (t, a) =
     (t\<lparr>streamingText := streamingText t @ concat (take k (fragments (remaining a)))\<rparr>,
      a\<lparr>fullResponse := fullResponse a @ concat (take k (fragments (remaining a))),
        remaining := Stream (drop k (fragments (remaining a))) (ending (remaining a))\<rparr>)"
proof (induction k arbitrary: t a)
  case 0
  show ?case by simp
next
  case (Suc k)
  show ?case
  proof (cases "fragments (remaining a)")
    case Nil
    with Suc [of t a] show ?thesis by (simp add: next_fragment_Nil)
  next
    case (Cons chunk rest)
    from Suc [of "t\<lparr>streamingText := streamingText t @ chunk\<rparr>"
                 "a\<lparr>fullResponse := fullResponse a @ chunk,
                    remaining := Stream rest (ending (remaining a))\<rparr>"]
    show ?thesis by (simp add: next_fragment_Cons [OF Cons] Cons)
  qed
qed

lemma submitAnalysis_steps:
  "submitAnalysis rt s =
     (case begin_attempt rt s of
        (s', None) \<Rightarrow> s'
      | (entered, Some a) \<Rightarrow> uninterrupted a entered)"
  by (simp add: submitAnalysis_def begin_attempt_def uninterrupted_def end_attempt_def
      try_block_def receive_fragments_closed foldl_receive Let_def
      split: option.splits ending.splits sum.splits)

lemma begin_attempt_passed:
  assumes "imageFile s = Some file" and "activePlant s = Some plant"
  shows "begin_attempt rt s =
           (streamed file plant [] s,
            Some \<lparr>att_runtime = rt, att_file = file, att_plant = plant,
                   att_env = environmentalData s, fullResponse = [],
                   remaining = response rt file plant s\<rparr>)"
  using assms
  by (simp add: begin_attempt_def enterStreaming_def streamed_def response_def Let_def)

lemma begin_ready:
  "begin_attempt (example_runtime answer) ready =
     (streamed photo basil [] ready,
      Some \<lparr>att_runtime = example_runtime answer, att_file = photo, att_plant = basil,
             att_env = initialEnvironmentalData, fullResponse = [], remaining = answer\<rparr>)"
  using begin_attempt_passed [OF ready_fields(1,2), of "example_runtime answer"]
  by (simp add: example_response ready_fields(3))

lemma submitAnalysis_other_service:
  assumes "g file (environmentalData s) (previousAnalysis plant) =
             analyzePlantImage rt file (environmentalData s) (previousAnalysis plant)"
    and "imageFile s = Some file" and "activePlant s = Some plant"
  shows "submitAnalysis (rt\<lparr>analyzePlantImage := g\<rparr>) s = submitAnalysis rt s"
proof -
  let ?rt' = "rt\<lparr>analyzePlantImage := g\<rparr>"
  let ?resp = "response rt file plant s"
  have same: "response ?rt' file plant s = ?resp"
    using assms(1) by (simp add: response_def)
  show ?thesis
  proof (cases "ending ?resp")
    case (Threw e)
    then have r: "?resp = Stream (fragments ?resp) (Threw e)"
      using response_collapse [of rt "file" plant s] by simp
    from submitAnalysis_threw [OF assms(2,3) r]
         submitAnalysis_threw [OF assms(2,3), of ?rt' "fragments ?resp" e] r same
    show ?thesis by simp
  next
    case Completed
    then have r: "?resp = Stream (fragments ?resp) Completed"
      using response_collapse [of rt "file" plant s] by simp
    show ?thesis
    proof (cases "JSON_parse (concat (fragments ?resp))")
      case None
      from submitAnalysis_unparsed [OF assms(2,3) r None]
           submitAnalysis_unparsed [OF assms(2,3), of ?rt' "fragments ?resp"] r same None
      show ?thesis by simp
    next
      case (Some v)
      from submitAnalysis_parsed [OF assms(2,3) r Some refl refl]
           submitAnalysis_parsed [OF assms(2,3), of ?rt' "fragments ?resp" v, OF _ Some refl refl]
           r same
      show ?thesis by (simp cong: sum.case_cong)
    qed
  qed
qed


section \<open>The claims\<close>

text \<open>
  C1. In every attempt that succeeds (it ends with no error), the stream has completed,
  the concatenation of its fragments in arrival order parses, and the final record,
  which is also the record handed to the store, is built from that parse result: it
  holds the properties the parse result has, other than the four stamped after the
  spread, so each field of \<open>PredictionData\<close> has in the record exactly the value it
  has in the parsed payload (and is absent from the record when absent there).
\<close>

theorem final_record_is_parse_of_concatenation:
  assumes "imageFile s = Some file" and "activePlant s = Some plant"
    and "error (submitAnalysis rt s) = None"
  shows "\<exists>v r. ending (response rt file plant s) = Completed
           \<and> JSON_parse (concat (fragments (response rt file plant s))) = Some v
           \<and> r = newAnalysisRecord v (toISOString_1 rt) (toISOString_2 rt)
                   (createObjectURL rt file) (environmentalData s)
           \<and> finalPrediction (submitAnalysis rt s) = Some r
           \<and> last (calls (submitAnalysis rt s)) = AddAnalysisToPlant (plant_id plant) r
           \<and> predictionData r =
               filter (\<lambda>(k, x). k \<notin> set stamped_fields) (spread v)
           \<and> (\<forall>k\<in>set PredictionData_fields. map_of (predictionData r) k = own_property v k)"
proof -
  let ?resp = "response rt file plant s"
  let ?fs = "fragments ?resp"
  show ?thesis
  proof (cases "ending ?resp")
    case (Threw e)
    then have "?resp = Stream ?fs (Threw e)"
      using response_collapse [of rt "file" plant s] by simp
    from submitAnalysis_threw [OF assms(1,2) this] assms(3) show ?thesis
      by (simp add: finally_block_fields catch_block_fields)
  next
    case Completed
    then have resp: "?resp = Stream ?fs Completed"
      using response_collapse [of rt "file" plant s] by simp
    show ?thesis
    proof (cases "JSON_parse (concat ?fs)")
      case None
      from submitAnalysis_unparsed [OF assms(1,2) resp None] assms(3) show ?thesis
        by (simp add: finally_block_fields catch_block_fields)
    next
      case (Some v)
      let ?r = "newAnalysisRecord v (toISOString_1 rt) (toISOString_2 rt)
                  (createObjectURL rt file) (environmentalData s)"
      note eq = submitAnalysis_parsed [OF assms(1,2) resp Some refl refl]
      show ?thesis
      proof (cases "addAnalysisToPlant rt (plant_id plant) ?r (plantProfiles s)")
        case (Inl err)
        with eq assms(3) show ?thesis
          by (simp add: finally_block_fields catch_block_fields)
      next
        case (Inr ps)
        with eq have
          "finalPrediction (submitAnalysis rt s) = Some ?r"
          "last (calls (submitAnalysis rt s)) = AddAnalysisToPlant (plant_id plant) ?r"
          by (simp_all add: finally_block_fields)
        moreover have "predictionData ?r = filter (\<lambda>(k, x). k \<notin> set stamped_fields) (spread v)"
          by (simp add: newAnalysisRecord_def)
        moreover have "\<forall>k\<in>set PredictionData_fields. map_of (predictionData ?r) k = own_property v k"
          using newAnalysisRecord_fields by blast
        ultimately show ?thesis using Completed Some by blast
      qed
    qed
  qed
qed

theorem final_record_is_parse_of_concatenation_witness:
  \<open>imageFile ready = Some photo \<and> activePlant ready = Some basil
   \<and> error (submitAnalysis (example_runtime basil_answer) ready) = None
   \<and> JSON_parse (concat (fragments (response (example_runtime basil_answer) photo basil ready))) =
       Some (JObj [(js ''plantName'', JStr (js ''Basil'')), (js ''isHealthy'', JBool True),
                   (js ''confidenceScore'', JNum (js ''0.92'')),
                   (js ''progressAssessment'', JStr (js ''N/A''))])
   \<and> finalPrediction (submitAnalysis (example_runtime basil_answer) ready) =
       Some \<lparr>predictionData =
               [(js ''plantName'', JStr (js ''Basil'')), (js ''isHealthy'', JBool True),
                (js ''confidenceScore'', JNum (js ''0.92'')),
                (js ''progressAssessment'', JStr (js ''N/A''))],
             rec_id = js ''2024-05-01T10:00:00.000Z'', rec_date = js ''2024-05-01T10:00:00.000Z'',
             rec_imageUrl = js ''blob:basil.jpg'',
             rec_environmentalData = initialEnvironmentalData\<rparr>\<close>
proof -
  have parsed:
    \<open>JSON_parse (concat (fragments (response (example_runtime basil_answer) photo basil ready))) =
       Some (JObj [(js ''plantName'', JStr (js ''Basil'')), (js ''isHealthy'', JBool True),
                   (js ''confidenceScore'', JNum (js ''0.92'')),
                   (js ''progressAssessment'', JStr (js ''N/A''))])\<close>
    by (simp add: response_def example_runtime_def basil_answer_def js_simps)
  have img: "imageFile ready = Some photo" and act: "activePlant ready = Some basil"
    by (simp_all add: ready_explicit)
  have resp: "response (example_runtime basil_answer) photo basil ready =
                Stream (fragments basil_answer) Completed"
    by (simp add: response_def example_runtime_def basil_answer_def)
  have parsed': "JSON_parse (concat (fragments basil_answer)) =
       Some (JObj [(js ''plantName'', JStr (js ''Basil'')), (js ''isHealthy'', JBool True),
                   (js ''confidenceScore'', JNum (js ''0.92'')),
                   (js ''progressAssessment'', JStr (js ''N/A''))])"
    using parsed by (simp add: resp)
  note eq = submitAnalysis_parsed [OF img act resp parsed' refl refl]
  have ok: "error (submitAnalysis (example_runtime basil_answer) ready) = None"
    by (subst eq)
      (simp add: finally_block_fields streamed_fields example_runtime_def
        addAnalysisToPlant_spec_def ready_explicit basil_def)
  from final_record_is_parse_of_concatenation [OF img act ok] obtain v r where
    "JSON_parse (concat (fragments (response (example_runtime basil_answer) photo basil ready))) = Some v"
    and "r = newAnalysisRecord v (toISOString_1 (example_runtime basil_answer))
               (toISOString_2 (example_runtime basil_answer))
               (createObjectURL (example_runtime basil_answer) photo) (environmentalData ready)"
    and "finalPrediction (submitAnalysis (example_runtime basil_answer) ready) = Some r"
    by blast
  with parsed have
    "finalPrediction (submitAnalysis (example_runtime basil_answer) ready) =
       Some (newAnalysisRecord
               (JObj [(js ''plantName'', JStr (js ''Basil'')), (js ''isHealthy'', JBool True),
                      (js ''confidenceScore'', JNum (js ''0.92'')),
                      (js ''progressAssessment'', JStr (js ''N/A''))])
               (toISOString_1 (example_runtime basil_answer))
               (toISOString_2 (example_runtime basil_answer))
               (createObjectURL (example_runtime basil_answer) photo) (environmentalData ready))"
    by simp
  then have "finalPrediction (submitAnalysis (example_runtime basil_answer) ready) =
       Some \<lparr>predictionData =
               [(js ''plantName'', JStr (js ''Basil'')), (js ''isHealthy'', JBool True),
                (js ''confidenceScore'', JNum (js ''0.92'')),
                (js ''progressAssessment'', JStr (js ''N/A''))],
             rec_id = js ''2024-05-01T10:00:00.000Z'', rec_date = js ''2024-05-01T10:00:00.000Z'',
             rec_imageUrl = js ''blob:basil.jpg'',
             rec_environmentalData = initialEnvironmentalData\<rparr>"
    by (simp add: newAnalysisRecord_def spread_def stamped_fields_def example_runtime_def
        ready_explicit photo_def js_def ch_def)
  with img act ok parsed show ?thesis by blast
qed







text \<open>
  C4. An attempt that passes the guard asks the service once, with the image, the
  environmental data of the state and, as \<open>previousRecord\<close>, the last element of the
  active plant's \<open>analysisHistory\<close> when that history is not empty and nothing when it
  is. The stream the attempt consumes is the service's answer to exactly this request:
  the attempt is the run of that stream, any other service that gives the same answer
  to this request gives the same attempt, and what the answer holds decides the outcome
  (the error when it throws, the final record when it completes and parses). The request
  is the first call of the attempt and its only call to the service.
\<close>

theorem previous_record_is_last_of_history:
  assumes "imageFile s = Some file" and "activePlant s = Some plant"
    and "previous =
           (if analysisHistory plant = [] then None else Some (last (analysisHistory plant)))"
  shows "map_option remaining (snd (begin_attempt rt s)) =
           Some (analyzePlantImage rt file (environmentalData s) previous)
       \<and> (\<forall>a. snd (begin_attempt rt s) = Some a \<longrightarrow>
              submitAnalysis rt s = uninterrupted a (fst (begin_attempt rt s)))
       \<and> (\<forall>g. g file (environmentalData s) previous =
                  analyzePlantImage rt file (environmentalData s) previous \<longrightarrow>
              submitAnalysis (rt\<lparr>analyzePlantImage := g\<rparr>) s = submitAnalysis rt s)
       \<and> (\<forall>m. ending (analyzePlantImage rt file (environmentalData s) previous) =
                  Threw (OtherError m) \<longrightarrow>
              error (submitAnalysis rt s) = Some m)
       \<and> (\<forall>v. ending (analyzePlantImage rt file (environmentalData s) previous) = Completed
               \<and> JSON_parse (concat (fragments
                     (analyzePlantImage rt file (environmentalData s) previous))) = Some v \<longrightarrow>
              finalPrediction (submitAnalysis rt s) =
                Some (newAnalysisRecord v (toISOString_1 rt) (toISOString_2 rt)
                        (createObjectURL rt file) (environmentalData s)))
       \<and> take (Suc (length (calls s))) (calls (submitAnalysis rt s)) =
           calls s @ [AnalyzePlantImage file (environmentalData s) previous]
       \<and> length (filter is_request (calls (submitAnalysis rt s))) =
           Suc (length (filter is_request (calls s)))"
proof -
  have prev: "previous = previousAnalysis plant"
    by (simp add: assms(3) previousAnalysis_last)
  let ?answer = "analyzePlantImage rt file (environmentalData s) previous"
  have resp: "response rt file plant s = ?answer"
    by (simp add: response_def prev)
  note b = begin_attempt_passed [OF assms(1,2), of rt]
  have whole: "submitAnalysis rt s = uninterrupted a (fst (begin_attempt rt s))"
    if "snd (begin_attempt rt s) = Some a" for a
    using that submitAnalysis_steps [of rt s] by (cases "begin_attempt rt s") simp
  have other: "submitAnalysis (rt\<lparr>analyzePlantImage := g\<rparr>) s = submitAnalysis rt s"
    if "g file (environmentalData s) previous = ?answer" for g
    using submitAnalysis_other_service [OF _ assms(1,2), of g rt] that by (simp add: prev)
  have threw: "error (submitAnalysis rt s) = Some m" if "ending ?answer = Threw (OtherError m)" for m
  proof -
    from that have "response rt file plant s = Stream (fragments (response rt file plant s))
                      (Threw (OtherError m))"
      using response_collapse [of rt "file" plant s] by (simp add: resp)
    from submitAnalysis_threw [OF assms(1,2) this] show ?thesis
      by (simp add: finally_block_fields catch_block_fields reported_def)
  qed
  have parsed: "finalPrediction (submitAnalysis rt s) =
                Some (newAnalysisRecord v (toISOString_1 rt) (toISOString_2 rt)
                        (createObjectURL rt file) (environmentalData s))"
    if "ending ?answer = Completed" and "JSON_parse (concat (fragments ?answer)) = Some v" for v
  proof -
    from that(1) have c: "ending (response rt file plant s) = Completed" by (simp add: resp)
    from that(2) have p: "JSON_parse (concat (fragments (response rt file plant s))) = Some v"
      by (simp add: resp)
    from submitAnalysis_parsed [OF assms(1,2) submitAnalysis_completed [OF assms(1,2) c] p refl refl]
    show ?thesis
      by (cases "addAnalysisToPlant rt (plant_id plant)
                   (newAnalysisRecord v (toISOString_1 rt) (toISOString_2 rt)
                      (createObjectURL rt file) (environmentalData s)) (plantProfiles s)")
        (simp_all add: finally_block_fields catch_block_fields)
  qed
  from submitAnalysis_calls [OF assms(1,2), of rt] obtain rest where
    c: "calls (submitAnalysis rt s) =
          calls s @ AnalyzePlantImage file (environmentalData s) (previousAnalysis plant) # rest"
    and r: "filter is_request rest = []"
    by blast
  have log: "take (Suc (length (calls s))) (calls (submitAnalysis rt s)) =
           calls s @ [AnalyzePlantImage file (environmentalData s) previous]
       \<and> length (filter is_request (calls (submitAnalysis rt s))) =
           Suc (length (filter is_request (calls s)))"
    by (simp add: c r prev is_request_def)
  have "map_option remaining (snd (begin_attempt rt s)) = Some ?answer"
    by (simp add: b resp)
  with whole other threw parsed log show ?thesis by blast
qed

theorem previous_record_is_last_of_history_witness:
  "imageFile ready_again = Some photo \<and> activePlant ready_again = Some grown_basil
   \<and> analysisHistory grown_basil = [first_record]
   \<and> analyzePlantImage probing_runtime photo (environmentalData ready_again) (Some first_record) =
       Stream [] (Threw (OtherError (rec_id first_record)))
   \<and> analyzePlantImage probing_runtime photo (environmentalData ready_again) None = basil_answer
   \<and> error (submitAnalysis probing_runtime ready_again) = Some (rec_id first_record)
   \<and> take (Suc 0) (calls (submitAnalysis probing_runtime ready_again)) =
        [AnalyzePlantImage photo initialEnvironmentalData (Some first_record)]
   \<and> imageFile ready = Some photo \<and> activePlant ready = Some basil
   \<and> analysisHistory basil = []
   \<and> finalPrediction (submitAnalysis probing_runtime ready) = Some basil_record"
proof -
  have again: "imageFile ready_again = Some photo" "activePlant ready_again = Some grown_basil"
    "analysisHistory grown_basil = [first_record]" "calls ready_again = []"
    "environmentalData ready_again = initialEnvironmentalData"
    by (simp_all add: ready_again_explicit grown_basil_def)
  have probe: "analyzePlantImage probing_runtime photo (environmentalData ready_again)
                 (Some first_record) = Stream [] (Threw (OtherError (rec_id first_record)))"
    "analyzePlantImage probing_runtime photo (environmentalData ready_again) None = basil_answer"
    "analyzePlantImage probing_runtime photo (environmentalData ready) None = basil_answer"
    by (simp_all add: probing_runtime_def)
  have hist: "analysisHistory basil = []" by (simp add: basil_def)
  have clock: "newAnalysisRecord
             (JObj [(js ''plantName'', JStr (js ''Basil'')), (js ''isHealthy'', JBool True),
                    (js ''confidenceScore'', JNum (js ''0.92'')),
                    (js ''progressAssessment'', JStr (js ''N/A''))])
             (toISOString_1 probing_runtime) (toISOString_2 probing_runtime)
             (createObjectURL probing_runtime photo) (environmentalData ready) = basil_record"
    by (simp add: newAnalysisRecord_def probing_runtime_def example_runtime_def ready_fields(3)
        basil_record_def spread_def stamped_fields_def photo_def js_def ch_def)
  have completes: "ending basil_answer = Completed" by (simp add: basil_answer_def)
  from previous_record_is_last_of_history
         [OF again(1,2), of "Some first_record" probing_runtime]
       previous_record_is_last_of_history [OF ready_fields(1,2), of None probing_runtime]
       again probe hist clock completes basil_answer_parse ready_fields(1,2)
  show ?thesis
    by simp
qed

text \<open>
  C5 fails on the uniqueness of identifiers. The identifier of a record is the string
  \<open>new Date().toISOString()\<close> returns when the record is built, so two records built
  at the same reading of the clock have the same identifier. Here a plant is analysed,
  the user goes back to the plants, starts an analysis of the same plant with the same
  photo, and the clock reads \<open>2024-05-01T10:00:00.000Z\<close> both times (it was set back
  in between): the history then holds two records, with different contents and the
  same \<open>id\<close>.
\<close>

theorem same_clock_reading_stamps_same_id:
  "historyOf (js ''1'') (plantProfiles analysed_twice) = Some [basil_record, unchecked_record]
   \<and> basil_record \<noteq> unchecked_record
   \<and> rec_id basil_record = js ''2024-05-01T10:00:00.000Z''
   \<and> rec_id unchecked_record = js ''2024-05-01T10:00:00.000Z''"
proof -
  let ?p = "basil\<lparr>analysisHistory := [basil_record]\<rparr>"
  let ?s = "handleImageUpload (example_runtime unchecked_answer) photo
              (handleStartAnalysis (hd (plantProfiles analysed_once)) (resetToHome analysed_once))"
  have img: "imageFile ?s = Some photo" and act: "activePlant ?s = Some ?p"
    and env: "environmentalData ?s = initialEnvironmentalData"
    and store: "plantProfiles ?s = [?p]"
    by (simp_all add: handleImageUpload_def handleStartAnalysis_def resetToHome_def
        resetAnalysisState_def analysed_once_store)
  have hist: "historyOf (plant_id ?p) (plantProfiles ?s) = Some [basil_record]"
    by (simp add: store historyOf_def)
  have pid: "plant_id ?p = js ''1''" by (simp add: basil_def)
  from attempt_with_spec_store [OF example_store act hist, of unchecked_answer]
       built_unchecked_record [OF img act env]
  have "historyOf (js ''1'') (plantProfiles analysed_twice) = Some [basil_record, unchecked_record]"
    unfolding analysed_twice_def by (simp add: pid)
  moreover have "basil_record \<noteq> unchecked_record"
    by (simp add: basil_record_def unchecked_record_def)
  ultimately show ?thesis
    by (simp add: basil_record_def unchecked_record_def)
qed

text \<open>
  C6 fails where the stream itself throws a \<open>SyntaxError\<close>. The \<open>catch\<close> block
  takes every \<open>SyntaxError\<close> for a failure of \<open>JSON.parse\<close>, whatever threw it. Here
  the stream yields two fragments and then throws a \<open>SyntaxError\<close>: the attempt ends in
  the very state the same two fragments leave when the stream completes and the payload
  does not parse, with the message of the parse failure in \<open>error\<close>. The caller cannot
  tell the transport failure from the parse failure.
\<close>

theorem stream_syntax_error_is_reported_as_parse_failure:
  \<open>imageFile ready = Some photo \<and> activePlant ready = Some basil
   \<and> fragments (response (example_runtime truncated_answer) photo basil ready) =
       [js ''{"plantName":'', js ''"Bas'']
   \<and> ending (response (example_runtime truncated_answer) photo basil ready) = Completed
   \<and> JSON_parse (concat (fragments (response (example_runtime truncated_answer) photo basil ready))) =
       None
   \<and> fragments (response (example_runtime misparsed_answer) photo basil ready) =
       [js ''{"plantName":'', js ''"Bas'']
   \<and> ending (response (example_runtime misparsed_answer) photo basil ready) =
       Threw (SyntaxError (js ''Unexpected token''))
   \<and> error (submitAnalysis (example_runtime truncated_answer) ready) = Some parse_failure_message
   \<and> error (submitAnalysis (example_runtime misparsed_answer) ready) = Some parse_failure_message
   \<and> last (calls (submitAnalysis (example_runtime misparsed_answer) ready)) =
       ConsoleError (js ''Full response received before parsing error:'')
         (js ''{"plantName":'' @ js ''"Bas'')
   \<and> submitAnalysis (example_runtime misparsed_answer) ready =
       submitAnalysis (example_runtime truncated_answer) ready\<close>
proof -
  have t: "response (example_runtime truncated_answer) photo basil ready =
             Stream (fragments truncated_answer) Completed"
    and m: "response (example_runtime misparsed_answer) photo basil ready =
             Stream (fragments truncated_answer) (Threw (SyntaxError (js ''Unexpected token'')))"
    by (simp_all add: example_response truncated_answer_def misparsed_answer_def)
  note et = submitAnalysis_unparsed [OF ready_fields(1,2) t truncated_answer_parse]
  note em = submitAnalysis_threw [OF ready_fields(1,2) m]
  have same: "submitAnalysis (example_runtime misparsed_answer) ready =
       submitAnalysis (example_runtime truncated_answer) ready"
    by (simp add: et em catch_block_def)
  have "error (submitAnalysis (example_runtime truncated_answer) ready) = Some parse_failure_message"
    by (simp add: et finally_block_fields catch_block_fields reported_def)
  moreover have \<open>last (calls (submitAnalysis (example_runtime misparsed_answer) ready)) =
       ConsoleError (js ''Full response received before parsing error:'')
         (js ''{"plantName":'' @ js ''"Bas'')\<close>
    by (simp add: em finally_block_fields catch_block_fields console_label_def
        truncated_answer_def)
  ultimately show ?thesis
    using same ready_fields(1,2) truncated_answer_parse
    by (simp add: example_response truncated_answer_def misparsed_answer_def)
qed

text \<open>
  C7, as the code has it. When an attempt enters the streaming phase the partial-text
  buffer is emptied and the prior result and the prior error are cleared, before any
  fragment is consumed, and the stream then consumed is the service's answer. Each
  fragment received is appended to the partial-text buffer as it stands at that moment,
  and changes nothing else of the state. So after \<open>k\<close> fragments the buffer is the
  concatenation of the first \<open>k\<close> fragments when no other handler ran in between, and
  the result and the error are still cleared and the loading flag is set;
  \<open>submitAnalysis\<close> itself is that uninterrupted run. Nothing stops the attempt when
  another handler runs: after \<open>Back to My Plants\<close> the buffer is empty and the
  fragments that follow are appended to the empty buffer.
\<close>

theorem fragments_are_appended_to_the_buffer_as_it_stands:
  assumes "imageFile s = Some file" and "activePlant s = Some plant"
  shows "streamingText (fst (begin_attempt rt s)) = []
       \<and> finalPrediction (fst (begin_attempt rt s)) = None
       \<and> error (fst (begin_attempt rt s)) = None
       \<and> isLoading (fst (begin_attempt rt s))
       \<and> map_option fullResponse (snd (begin_attempt rt s)) = Some []
       \<and> map_option remaining (snd (begin_attempt rt s)) = Some (response rt file plant s)
       \<and> (\<forall>a t chunk rest. fragments (remaining a) = chunk # rest \<longrightarrow>
             next_fragment a t =
               (t\<lparr>streamingText := streamingText t @ chunk\<rparr>,
                a\<lparr>fullResponse := fullResponse a @ chunk,
                  remaining := Stream rest (ending (remaining a))\<rparr>))
       \<and> (\<forall>a. snd (begin_attempt rt s) = Some a \<longrightarrow>
             streamingText (fst (receive_fragments k (fst (begin_attempt rt s), a))) =
               concat (take k (fragments (response rt file plant s)))
           \<and> finalPrediction (fst (receive_fragments k (fst (begin_attempt rt s), a))) = None
           \<and> error (fst (receive_fragments k (fst (begin_attempt rt s), a))) = None
           \<and> isLoading (fst (receive_fragments k (fst (begin_attempt rt s), a)))
           \<and> submitAnalysis rt s = uninterrupted a (fst (begin_attempt rt s)))"
proof -
  note b = begin_attempt_passed [OF assms, of rt]
  have step: "\<forall>a t chunk rest. fragments (remaining a) = chunk # rest \<longrightarrow>
             next_fragment a t =
               (t\<lparr>streamingText := streamingText t @ chunk\<rparr>,
                a\<lparr>fullResponse := fullResponse a @ chunk,
                  remaining := Stream rest (ending (remaining a))\<rparr>)"
    using next_fragment_Cons by blast
  have whole: "submitAnalysis rt s = uninterrupted a (fst (begin_attempt rt s))"
    if "snd (begin_attempt rt s) = Some a" for a
    using that submitAnalysis_steps [of rt s] by (cases "begin_attempt rt s") simp
  show ?thesis
    using step whole
    by (simp add: b receive_fragments_closed streamed_fields)
qed

theorem back_during_streaming_empties_the_buffer:
  \<open>snd (begin_attempt (example_runtime basil_answer) ready) \<noteq> None
   \<and> take 2 (fragments basil_answer) =
       [js ''{"plantName":"Basil",'', js ''"isHealthy":true,"confidenceScore":0.92,'']
   \<and> currentView (fst (next_fragment (the (snd (begin_attempt (example_runtime basil_answer) ready)))
                         (fst (begin_attempt (example_runtime basil_answer) ready)))) = RESULT
   \<and> fullResponse (snd back_during_streaming) =
       js ''{"plantName":"Basil",'' @ js ''"isHealthy":true,"confidenceScore":0.92,''
   \<and> streamingText (fst back_during_streaming) = js ''"isHealthy":true,"confidenceScore":0.92,''
   \<and> streamingText (fst back_during_streaming) \<noteq>
       concat (take 2 (fragments basil_answer))\<close>
  by (simp add: back_during_streaming_def begin_ready Let_def next_fragment_def receive_def
      basil_answer_def streamed_def resetToHome_def resetAnalysisState_def js_def ch_def)

theorem fragments_are_appended_to_the_buffer_as_it_stands_witness:
  \<open>imageFile ready = Some photo \<and> activePlant ready = Some basil
   \<and> streamingText (fst (begin_attempt (example_runtime basil_answer) ready)) = []
   \<and> map_option remaining (snd (begin_attempt (example_runtime basil_answer) ready)) =
       Some basil_answer
   \<and> streamingText (fst (receive_fragments 2
         (fst (begin_attempt (example_runtime basil_answer) ready),
          the (snd (begin_attempt (example_runtime basil_answer) ready))))) =
       js ''{"plantName":"Basil",'' @ js ''"isHealthy":true,"confidenceScore":0.92,''
   \<and> submitAnalysis (example_runtime basil_answer) ready =
       uninterrupted (the (snd (begin_attempt (example_runtime basil_answer) ready)))
         (fst (begin_attempt (example_runtime basil_answer) ready))\<close>
proof -
  have a: "snd (begin_attempt (example_runtime basil_answer) ready) =
             Some (the (snd (begin_attempt (example_runtime basil_answer) ready)))"
    by (simp add: begin_ready)
  from fragments_are_appended_to_the_buffer_as_it_stands
         [OF ready_fields(1,2), of "example_runtime basil_answer" 2] a
  have "streamingText (fst (receive_fragments 2
         (fst (begin_attempt (example_runtime basil_answer) ready),
          the (snd (begin_attempt (example_runtime basil_answer) ready))))) =
          concat (take 2 (fragments (response (example_runtime basil_answer) photo basil ready)))"
    and "submitAnalysis (example_runtime basil_answer) ready =
       uninterrupted (the (snd (begin_attempt (example_runtime basil_answer) ready)))
         (fst (begin_attempt (example_runtime basil_answer) ready))"
    and "streamingText (fst (begin_attempt (example_runtime basil_answer) ready)) = []"
    and "map_option remaining (snd (begin_attempt (example_runtime basil_answer) ready)) =
       Some (response (example_runtime basil_answer) photo basil ready)"
    by blast+
  then show ?thesis
    using ready_fields(1,2)
    by (simp add: example_response basil_answer_def)
qed

text \<open>
  C8. If no image or no active plant profile is set when an attempt is started, the
  attempt fails at once with the precondition message and nothing else changes: the
  resulting state is the starting state with \<open>error\<close> set. In particular the
  profiles of the store, the partial-text buffer and a prior result are as they were,
  and no call is made (none to the service, none to the store).
\<close>

theorem precondition_failure_changes_only_error:
  assumes "imageFile s = None \<or> activePlant s = None"
  shows "submitAnalysis rt s = s\<lparr>error := Some precondition_message\<rparr>
       \<and> error (submitAnalysis rt s) = Some precondition_message
       \<and> plantProfiles (submitAnalysis rt s) = plantProfiles s
       \<and> streamingText (submitAnalysis rt s) = streamingText s
       \<and> finalPrediction (submitAnalysis rt s) = finalPrediction s
       \<and> isLoading (submitAnalysis rt s) = isLoading s
       \<and> currentView (submitAnalysis rt s) = currentView s
       \<and> calls (submitAnalysis rt s) = calls s"
  using assms by (simp add: submitAnalysis_precondition)

theorem precondition_failure_changes_only_error_witness:
  "(imageFile (initialApp [basil]) = None \<or> activePlant (initialApp [basil]) = None)
   \<and> submitAnalysis (example_runtime basil_answer) (initialApp [basil])
       = (initialApp [basil])\<lparr>error := Some precondition_message\<rparr>
   \<and> plantProfiles (submitAnalysis (example_runtime basil_answer) (initialApp [basil])) = [basil]
   \<and> calls (submitAnalysis (example_runtime basil_answer) (initialApp [basil])) = []"
  using precondition_failure_changes_only_error
    [of "initialApp [basil]" "example_runtime basil_answer"]
  by (simp add: initialApp_def)

text \<open>
  C9. Against the store as the specification describes it: when a profile has the
  history \<open>h\<close> and attempts are made on it one after the other, its history afterwards
  is \<open>h\<close> followed by the records of the attempts that succeeded, in the order of the
  attempts; the history of every other profile is as it was. So nothing of \<open>h\<close> is
  edited or reordered, and for a fresh profile (\<open>h\<close> empty) and \<open>N\<close> attempts that
  all succeed the history has exactly \<open>N\<close> records, the one at index \<open>N - 1\<close> being
  the record of the last attempt.
\<close>

theorem history_is_appended_in_commit_order:
  assumes "\<forall>rt\<in>set rts. addAnalysisToPlant rt = addAnalysisToPlant_spec notFound"
    and "activePlant s = Some plant"
    and "historyOf (plant_id plant) (plantProfiles s) = Some h"
  shows "historyOf (plant_id plant) (plantProfiles (attempts rts s)) = Some (h @ committed rts s)
       \<and> (\<forall>q. q \<noteq> plant_id plant \<longrightarrow>
              historyOf q (plantProfiles (attempts rts s)) = historyOf q (plantProfiles s))
       \<and> ((\<forall>rt\<in>set rts. built_record rt s \<noteq> None) \<longrightarrow>
              length (committed rts s) = length rts
            \<and> (\<forall>i<length rts. built_record (rts ! i) s = Some (committed rts s ! i))
            \<and> (rts \<noteq> [] \<longrightarrow>
                  built_record (last rts) s = Some ((h @ committed rts s) ! (length h + length rts - 1))))"
proof -
  have all: "length (committed rts s) = length rts
            \<and> (\<forall>i<length rts. built_record (rts ! i) s = Some (committed rts s ! i))
            \<and> (rts \<noteq> [] \<longrightarrow>
                  built_record (last rts) s = Some ((h @ committed rts s) ! (length h + length rts - 1)))"
    if ok: "\<forall>rt\<in>set rts. built_record rt s \<noteq> None"
  proof -
    note eq = committed_all_built [OF ok]
    have len: "length (committed rts s) = length rts" by (simp add: eq)
    have nth: "\<forall>i<length rts. built_record (rts ! i) s = Some (committed rts s ! i)"
      using ok by (auto simp: eq)
    have "built_record (last rts) s = Some ((h @ committed rts s) ! (length h + length rts - 1))"
      if "rts \<noteq> []"
    proof -
      from that have "length rts - 1 < length rts" by simp
      with nth have "built_record (rts ! (length rts - 1)) s = Some (committed rts s ! (length rts - 1))"
        by blast
      moreover from that have "(h @ committed rts s) ! (length h + length rts - 1) =
          committed rts s ! (length rts - 1)"
        by (cases rts) (simp_all add: nth_append)
      ultimately show ?thesis using that by (simp add: last_conv_nth)
    qed
    with len nth show ?thesis by blast
  qed
  from attempts_with_spec_store [OF assms] all show ?thesis by blast
qed

theorem history_is_appended_in_commit_order_witness:
  "addAnalysisToPlant (example_runtime basil_answer) =
     addAnalysisToPlant_spec (OtherError (js ''NotFoundError''))
   \<and> addAnalysisToPlant (example_runtime broken_answer) =
     addAnalysisToPlant_spec (OtherError (js ''NotFoundError''))
   \<and> addAnalysisToPlant (example_runtime unchecked_answer) =
     addAnalysisToPlant_spec (OtherError (js ''NotFoundError''))
   \<and> activePlant ready = Some basil
   \<and> historyOf (plant_id basil) (plantProfiles ready) = Some []
   \<and> built_record (example_runtime basil_answer) ready = Some basil_record
   \<and> built_record (example_runtime broken_answer) ready = None
   \<and> built_record (example_runtime unchecked_answer) ready = Some unchecked_record
   \<and> historyOf (plant_id basil)
         (plantProfiles (attempts [example_runtime basil_answer, example_runtime unchecked_answer]
            ready)) = Some [basil_record, unchecked_record]
   \<and> historyOf (plant_id basil)
         (plantProfiles (attempts [example_runtime basil_answer, example_runtime broken_answer,
            example_runtime unchecked_answer] ready)) = Some [basil_record, unchecked_record]"
proof -
  have broken: "built_record (example_runtime broken_answer) ready = None"
    by (simp add: built_record_def ready_fields example_response broken_answer_def)
  note basil = built_basil_record [OF ready_fields(1,2,3)]
  note unch = built_unchecked_record [OF ready_fields(1,2,3)]
  have two: "\<forall>rt\<in>set [example_runtime basil_answer, example_runtime unchecked_answer].
          addAnalysisToPlant rt = addAnalysisToPlant_spec (OtherError (js ''NotFoundError''))"
    and three: "\<forall>rt\<in>set [example_runtime basil_answer, example_runtime broken_answer,
            example_runtime unchecked_answer].
          addAnalysisToPlant rt = addAnalysisToPlant_spec (OtherError (js ''NotFoundError''))"
    by (simp_all add: example_store)
  from history_is_appended_in_commit_order [OF two ready_fields(2) ready_fields(6)]
       history_is_appended_in_commit_order [OF three ready_fields(2) ready_fields(6)]
       basil unch broken ready_fields(2,6)
  show ?thesis
    by (simp add: committed_def example_store)
qed

text \<open>
  C10. After every invocation of \<open>submitAnalysis\<close>, however the attempt ended, the
  loading flag is false. The flag is false in every state the component reaches; an
  invocation that passes the guard ends in the \<open>finally\<close> block, which clears the
  flag, and an invocation the guard stops leaves the flag as it found it: false.
\<close>

theorem loading_flag_false_after_every_attempt:
  assumes "reachable s"
  shows "\<not> isLoading (submitAnalysis rt s) \<and> \<not> isLoading s"
  using assms reachable_not_loading [of s] reachable_not_loading [OF reachable.submit, of s rt]
  by simp

theorem loading_flag_false_after_every_attempt_witness:
  "reachable ready
   \<and> \<not> isLoading (submitAnalysis (example_runtime broken_answer) ready)
   \<and> reachable (initialApp [basil])
   \<and> \<not> isLoading (submitAnalysis (example_runtime basil_answer) (initialApp [basil]))"
  using loading_flag_false_after_every_attempt [OF reachable_ready, of "example_runtime broken_answer"]
    loading_flag_false_after_every_attempt [OF reachable.initial, of "example_runtime basil_answer" "[basil]"]
    reachable_ready reachable.initial [of "[basil]"]
  by simp

end
